theory Spec2Isabelle
  imports Complex_Main "HOL-Library.Multiset" "HOL-Library.Log_Nat"
begin

section \<open>The prompt queues of the web app (\<^verbatim>\<open>pyrobbot/app/app_utils.py\<close>)\<close>

text \<open>
  An entry of a prompt queue is a dictionary with a \<^verbatim>\<open>"page"\<close> key (read as
  \<^verbatim>\<open>entry["page"].page_id\<close>) and a payload. The entry is a record of the page's id and
  of the payload; the queue's deque is a list, its left end first.
\<close>

record 'a queue_entry =
  page_id :: string
  payload :: 'a

text \<open>
  The loop of \<^verbatim>\<open>filter_page_info_from_queue\<close>: while the deque is not empty, pop its left
  entry and \<^verbatim>\<open>put\<close> it (at the right end) on one of the two new queues.
\<close>

fun filter_page_loop ::
  "string \<Rightarrow> 'a queue_entry list \<Rightarrow> 'a queue_entry list \<Rightarrow> 'a queue_entry list
     \<Rightarrow> 'a queue_entry list \<times> 'a queue_entry list" where
  "filter_page_loop app_page_id [] items_from_page_queue queue_with_only_entries_from_other_pages =
     (items_from_page_queue, queue_with_only_entries_from_other_pages)"
| "filter_page_loop app_page_id (original_queue_entry # the_queue)
       items_from_page_queue queue_with_only_entries_from_other_pages =
     (if page_id original_queue_entry = app_page_id
      then filter_page_loop app_page_id the_queue
             (items_from_page_queue @ [original_queue_entry])
             queue_with_only_entries_from_other_pages
      else filter_page_loop app_page_id the_queue
             items_from_page_queue
             (queue_with_only_entries_from_other_pages @ [original_queue_entry]))"

text \<open>
  \<^verbatim>\<open>filter_page_info_from_queue(app_page, the_queue)\<close> returns the queue of the page's
  entries and leaves the other entries in \<^verbatim>\<open>the_queue\<close>: the result is the pair of the
  returned queue and of the new content of \<^verbatim>\<open>the_queue\<close>.
\<close>

definition filter_page_info_from_queue ::
  "string \<Rightarrow> 'a queue_entry list \<Rightarrow> 'a queue_entry list \<times> 'a queue_entry list" where
  "filter_page_info_from_queue app_page_id the_queue =
     filter_page_loop app_page_id the_queue [] []"

section \<open>Exceptions and floating point\<close>

text \<open>
  Python's exceptions that the modelled code can raise. A \<^verbatim>\<open>StopIteration\<close> raised inside
  the body of a generator reaches the generator's caller as \<^verbatim>\<open>RuntimeError\<close> (PEP 479, the
  rule since Python 3.7); \<^verbatim>\<open>OperationalError\<close> is \<^verbatim>\<open>sqlite3.OperationalError\<close>.
\<close>

datatype py_error = KeyError | RuntimeError | OverflowError | OperationalError | OtherError

text \<open>
  Python's \<^verbatim>\<open>float\<close> and SQLite's \<^verbatim>\<open>REAL\<close> are IEEE 754 binary64 numbers. A finite
  binary64 number is kept as the real number it stands for, and every operation rounds its
  exact result to the nearest binary64 number, a tie going to the even significand.
  \<open>binade a\<close> is the exponent \<open>e\<close> with \<open>2 ^ e \<le> a < 2 ^ (e + 1)\<close> of a positive \<open>a\<close>; below
  \<open>2 ^ (- 1022)\<close> the spacing of the subnormal numbers is used. Infinities and NaN are not
  modelled: no value that the modelled code computes reaches \<open>2 ^ 1024\<close>.
\<close>

definition round_half_even :: "real \<Rightarrow> int" where
  "round_half_even q =
     (let n = \<lfloor>q\<rfloor>; r = q - of_int n
      in if r < 1 / 2 then n else if 1 / 2 < r then n + 1 else if even n then n else n + 1)"

definition binade :: "real \<Rightarrow> int" where
  "binade a = (if 1 \<le> a then bitlen \<lfloor>a\<rfloor> - 1 else - bitlen (\<lceil>1 / a\<rceil> - 1))"

definition round64 :: "real \<Rightarrow> real" where
  "round64 x =
     (if x = 0 then 0
      else (let e = max (binade \<bar>x\<bar>) (- 1022); u = 2 powi (e - 52)
            in sgn x * of_int (round_half_even (\<bar>x\<bar> / u)) * u))"

text \<open>
  The operations on \<^verbatim>\<open>float\<close>; an \<^verbatim>\<open>int\<close> operand is converted to \<^verbatim>\<open>float\<close> first.
\<close>

definition float_of_int :: "int \<Rightarrow> real" where
  "float_of_int n = round64 (of_int n)"

definition fadd :: "real \<Rightarrow> real \<Rightarrow> real" where
  "fadd x y = round64 (x + y)"

definition fmul :: "real \<Rightarrow> real \<Rightarrow> real" where
  "fmul x y = round64 (x * y)"

definition fdiv :: "real \<Rightarrow> real \<Rightarrow> real" where
  "fdiv x y = round64 (x / y)"

section \<open>The token usage database (\<^verbatim>\<open>chat_gpt/tokens.py\<close>)\<close>

text \<open>
  \<^verbatim>\<open>PRICE_PER_THOUSAND_TOKENS\<close>: a dictionary from the model (a string or \<^verbatim>\<open>None\<close>) to the
  prices of a thousand input and output tokens, kept as an association list in the order of
  the source. A decimal literal of the source is the binary64 number nearest to it.
\<close>

record price =
  price_input :: real
  price_output :: real

definition PRICE_PER_THOUSAND_TOKENS :: "(string option \<times> price) list" where
  "PRICE_PER_THOUSAND_TOKENS =
     [(Some ''gpt-3.5-turbo'', \<lparr>price_input = round64 0.0015, price_output = round64 0.002\<rparr>),
      (Some ''gpt-4'', \<lparr>price_input = round64 0.03, price_output = round64 0.06\<rparr>),
      (Some ''text-embedding-ada-002'', \<lparr>price_input = round64 0.0001, price_output = round64 0.0\<rparr>),
      (None, \<lparr>price_input = round64 0.0, price_output = round64 0.0\<rparr>)]"

text \<open>
  \<^verbatim>\<open>self.token_price\<close>, built by \<^verbatim>\<open>__init__\<close>: a plain dictionary with the keys of the
  table and every price divided by \<^verbatim>\<open>1000.0\<close>.
\<close>

definition token_price :: "(string option \<times> price) list" where
  "token_price =
     map (\<lambda>(model, price_per_k_tokens).
            (model, \<lparr>price_input = fdiv (price_input price_per_k_tokens) 1000.0,
                      price_output = fdiv (price_output price_per_k_tokens) 1000.0\<rparr>))
         PRICE_PER_THOUSAND_TOKENS"

text \<open>
  The table \<^verbatim>\<open>token_costs\<close>: its rows, in the order of their insertion. An \<^verbatim>\<open>INTEGER\<close> of
  SQLite is a signed integer of 64 bits.
\<close>

record token_row =
  timestamp :: real
  model :: string
  n_input_tokens :: int
  n_output_tokens :: int
  cost_input_tokens :: real
  cost_output_tokens :: real

type_synonym token_costs = "token_row list"

definition int64 :: "int \<Rightarrow> bool" where
  "int64 n = (- (2 ^ 63) \<le> n \<and> n < 2 ^ 63)"

text \<open>
  \<^verbatim>\<open>INSERT OR REPLACE\<close> with \<^verbatim>\<open>timestamp\<close> as the primary key: a row with the same
  timestamp is deleted before the new row is stored.
\<close>

definition insert_or_replace :: "token_costs \<Rightarrow> token_row \<Rightarrow> token_costs" where
  "insert_or_replace db row = filter (\<lambda>r. timestamp r \<noteq> timestamp row) db @ [row]"

text \<open>
  \<^verbatim>\<open>insert_data(model, n_input_tokens, n_output_tokens)\<close>. The reading of the clock,
  \<^verbatim>\<open>datetime.datetime.utcnow().timestamp()\<close>, is the argument \<open>utcnow\<close>. The result is the
  outcome of the call (\<open>Inr ()\<close> when it returns, \<open>Inl e\<close> when it raises \<open>e\<close>) and the
  table after it. \<^verbatim>\<open>self.token_price[model]\<close> raises \<^verbatim>\<open>KeyError\<close> for a missing key while
  the arguments of \<^verbatim>\<open>cursor.execute\<close> are evaluated, before any statement runs. A token
  count outside the 64 bits of an \<^verbatim>\<open>INTEGER\<close> raises \<^verbatim>\<open>OverflowError\<close>, in the product with
  the price when it is too large for a \<^verbatim>\<open>float\<close> and when it is bound to the statement
  otherwise; no row is stored then. The costs are products of \<^verbatim>\<open>float\<close>s.
\<close>

definition insert_data ::
  "token_costs \<Rightarrow> real \<Rightarrow> string option \<Rightarrow> int \<Rightarrow> int \<Rightarrow> (py_error + unit) \<times> token_costs" where
  "insert_data db utcnow model_arg n_in n_out =
     (case model_arg of
        None \<Rightarrow> (Inr (), db)
      | Some m \<Rightarrow>
          (case map_of token_price (Some m) of
             None \<Rightarrow> (Inl KeyError, db)
           | Some p \<Rightarrow>
               if int64 n_in \<and> int64 n_out
               then (Inr (),
                     insert_or_replace db
                       \<lparr>timestamp = utcnow, model = m,
                        n_input_tokens = n_in, n_output_tokens = n_out,
                        cost_input_tokens = fmul (float_of_int n_in) (price_input p),
                        cost_output_tokens = fmul (float_of_int n_out) (price_output p)\<rparr>)
               else (Inl OverflowError, db)))"

text \<open>
  One dictionary of \<^verbatim>\<open>retrieve_sums_by_model\<close>, with the keys \<^verbatim>\<open>earliest_timestamp\<close>,
  \<^verbatim>\<open>n_input_tokens\<close>, \<^verbatim>\<open>n_output_tokens\<close>, \<^verbatim>\<open>cost_input_tokens\<close> and
  \<^verbatim>\<open>cost_output_tokens\<close>; the fields carry the names of the query's columns.
\<close>

record model_sums =
  earliest_timestamp :: real
  total_n_input_tokens :: int
  total_n_output_tokens :: int
  total_cost_input_tokens :: real
  total_cost_output_tokens :: real

text \<open>
  \<^verbatim>\<open>SUM\<close> over an \<^verbatim>\<open>INTEGER\<close> column: the statement fails with "integer overflow" as soon
  as a partial sum leaves the 64 bits.
\<close>

fun sql_sum_int :: "int \<Rightarrow> int list \<Rightarrow> py_error + int" where
  "sql_sum_int acc [] = Inr acc"
| "sql_sum_int acc (v # vs) =
     (if int64 (acc + v) then sql_sum_int (acc + v) vs else Inl OperationalError)"

text \<open>
  \<^verbatim>\<open>SUM\<close> over a \<^verbatim>\<open>REAL\<close> column is computed by the SQLite library, and how it rounds
  depends on the version of the library: the functions that run the query take it as the
  argument \<open>sum_real\<close>, from the values of the column in the order of the rows to their
  sum. \<open>sql_sum_real\<close> is the plain sum: the values are added one by one to a binary64
  accumulator that starts at 0. Recent versions of SQLite also carry a correction term for
  the rounding errors (the summation of Kahan, Babuska and Neumaier); for one row and for
  two rows the result is the same binary64 number.
\<close>

definition sql_sum_real :: "real list \<Rightarrow> real" where
  "sql_sum_real vs = foldl fadd 0 vs"

text \<open>
  The aggregates of one group of the query (\<^verbatim>\<open>MIN(timestamp)\<close> and four \<^verbatim>\<open>SUM\<close>s). A group
  of \<^verbatim>\<open>GROUP BY\<close> is never empty.
\<close>

definition aggregate :: "(real list \<Rightarrow> real) \<Rightarrow> token_row list \<Rightarrow> py_error + model_sums" where
  "aggregate sum_real rows =
     (case sql_sum_int 0 (map n_input_tokens rows) of
        Inl e \<Rightarrow> Inl e
      | Inr n_in \<Rightarrow>
          (case sql_sum_int 0 (map n_output_tokens rows) of
             Inl e \<Rightarrow> Inl e
           | Inr n_out \<Rightarrow>
               Inr \<lparr>earliest_timestamp = min_list (map timestamp rows),
                    total_n_input_tokens = n_in,
                    total_n_output_tokens = n_out,
                    total_cost_input_tokens = sum_real (map cost_input_tokens rows),
                    total_cost_output_tokens = sum_real (map cost_output_tokens rows)\<rparr>))"

text \<open>
  \<^verbatim>\<open>retrieve_sums_by_model\<close>: one entry for every model of the table, unless the query
  fails. SQL leaves the order of the groups open; here a model comes where its last row
  does.
\<close>

fun all_groups ::
  "(string \<times> (py_error + model_sums)) list \<Rightarrow> py_error + (string \<times> model_sums) list" where
  "all_groups [] = Inr []"
| "all_groups ((m, g) # groups) =
     (case g of
        Inl e \<Rightarrow> Inl e
      | Inr s \<Rightarrow> (case all_groups groups of Inl e \<Rightarrow> Inl e | Inr rest \<Rightarrow> Inr ((m, s) # rest)))"

definition retrieve_sums_by_model ::
  "(real list \<Rightarrow> real) \<Rightarrow> token_costs \<Rightarrow> py_error + (string \<times> model_sums) list" where
  "retrieve_sums_by_model sum_real db =
     all_groups
       (map (\<lambda>m. (m, aggregate sum_real (filter (\<lambda>r. model r = m) db)))
            (remdups (map model db)))"

text \<open>
  \<^verbatim>\<open>retrieve_sums\<close>: \<^verbatim>\<open>sums[k] += v\<close> for every key of every per-model dictionary, starting
  from a \<^verbatim>\<open>defaultdict(int)\<close>, where a key that was never written reads as 0. The token
  counts are added as Python integers, the timestamps and the costs as \<^verbatim>\<open>float\<close>s.
\<close>

definition add_sums :: "model_sums \<Rightarrow> model_sums \<Rightarrow> model_sums" where
  "add_sums acc v =
     \<lparr>earliest_timestamp = fadd (earliest_timestamp acc) (earliest_timestamp v),
      total_n_input_tokens = total_n_input_tokens acc + total_n_input_tokens v,
      total_n_output_tokens = total_n_output_tokens acc + total_n_output_tokens v,
      total_cost_input_tokens = fadd (total_cost_input_tokens acc) (total_cost_input_tokens v),
      total_cost_output_tokens =
        fadd (total_cost_output_tokens acc) (total_cost_output_tokens v)\<rparr>"

definition empty_sums :: model_sums where
  "empty_sums =
     \<lparr>earliest_timestamp = 0, total_n_input_tokens = 0, total_n_output_tokens = 0,
      total_cost_input_tokens = 0, total_cost_output_tokens = 0\<rparr>"

definition retrieve_sums :: "(real list \<Rightarrow> real) \<Rightarrow> token_costs \<Rightarrow> py_error + model_sums" where
  "retrieve_sums sum_real db =
     (case retrieve_sums_by_model sum_real db of
        Inl e \<Rightarrow> Inl e
      | Inr groups \<Rightarrow> Inr (foldl add_sums empty_sums (map snd groups)))"

text \<open>
  A sequence of calls of \<^verbatim>\<open>insert_data\<close>, each with the reading of the clock it gets.
  A call that raises ends the sequence, as the exception would.
\<close>

record insert_call =
  call_time :: real
  call_model :: "string option"
  call_n_in :: int
  call_n_out :: int

fun insert_all :: "token_costs \<Rightarrow> insert_call list \<Rightarrow> (py_error + unit) \<times> token_costs" where
  "insert_all db [] = (Inr (), db)"
| "insert_all db (c # cs) =
     (case insert_data db (call_time c) (call_model c) (call_n_in c) (call_n_out c) of
        (Inl e, db') \<Rightarrow> (Inl e, db')
      | (Inr _, db') \<Rightarrow> insert_all db' cs)"

section \<open>Strings of the voice chat (\<^verbatim>\<open>pyrobbot/voice_chat.py\<close>)\<close>

text \<open>
  A Python string is a list of characters; a character is a code point below 256.
  \<^verbatim>\<open>str.isspace\<close> and \<^verbatim>\<open>str.isdigit\<close> on that range: the white space characters are
  U+0009 to U+000D, U+001C to U+0020, U+0085 and U+00A0; the digits are 0 to 9 and the
  superscripts U+00B2, U+00B3 and U+00B9.
\<close>

definition py_isspace :: "char \<Rightarrow> bool" where
  "py_isspace c =
     (let n = (of_char c :: nat)
      in (9 \<le> n \<and> n \<le> 13) \<or> (28 \<le> n \<and> n \<le> 32) \<or> n = 133 \<or> n = 160)"

definition py_isdigit :: "char \<Rightarrow> bool" where
  "py_isdigit c =
     (let n = (of_char c :: nat)
      in (48 \<le> n \<and> n \<le> 57) \<or> n = 178 \<or> n = 179 \<or> n = 185)"

text \<open>\<^verbatim>\<open>s.strip()\<close>: the white space at both ends is removed.\<close>

definition py_strip :: "string \<Rightarrow> string" where
  "py_strip s = rev (dropWhile py_isspace (rev (dropWhile py_isspace s)))"

text \<open>\<^verbatim>\<open>s.endswith(suffix)\<close> and \<^verbatim>\<open>s.startswith(prefix)\<close>.\<close>

definition endswith :: "string \<Rightarrow> string \<Rightarrow> bool" where
  "endswith s suffix_arg =
     (length suffix_arg \<le> length s \<and> drop (length s - length suffix_arg) s = suffix_arg)"

definition startswith :: "string \<Rightarrow> string \<Rightarrow> bool" where
  "startswith s prefix_arg = (take (length prefix_arg) s = prefix_arg)"

section \<open>Answering a question (\<^verbatim>\<open>VoiceChat.answer_question\<close>)\<close>

text \<open>
  A chunk of the reply, as \<^verbatim>\<open>respond_user_prompt\<close> yields it: its \<^verbatim>\<open>chunk_type\<close>
  (\<^verbatim>\<open>"text"\<close> or \<^verbatim>\<open>"code"\<close>) and its \<^verbatim>\<open>content\<close>.
\<close>

record answer_chunk =
  chunk_type :: string
  content :: string

text \<open>
  What a turn of the chat does, in program order: the generator yields a chunk, an item is
  put on \<^verbatim>\<open>tts_conversion_queue\<close> (a text, or \<^verbatim>\<open>None\<close> at the end of the reply), the
  queue of the current answer's audios is cleared, a string is printed.
\<close>

datatype chat_event =
  Yield answer_chunk
| TtsPut "string option"
| ClearAnswerAudios
| Print string

text \<open>
  The body of the loop of \<^verbatim>\<open>answer_question\<close> after the \<^verbatim>\<open>yield\<close>: the events of the
  iteration and the new value of \<^verbatim>\<open>sentence_for_tts\<close>.
  \<^verbatim>\<open>sentence_for_tts.strip()[-2]\<close> raises \<^verbatim>\<open>IndexError\<close> on a string shorter than two
  characters; the error is suppressed and the sentence is sent.
\<close>

definition accumulate_sentence :: "bool \<Rightarrow> string \<Rightarrow> answer_chunk \<Rightarrow> chat_event list \<times> string" where
  "accumulate_sentence reply_only_as_text sentence_for_tts answer_chunk =
     (if chunk_type answer_chunk = ''text'' \<and> \<not> reply_only_as_text then
        (let sentence = sentence_for_tts @ content answer_chunk;
             stripd_chunk = py_strip (content answer_chunk)
         in if endswith stripd_chunk ''?'' \<or> endswith stripd_chunk ''!''
               \<or> endswith stripd_chunk ''.''
            then (if endswith stripd_chunk ''.'' \<and> 2 \<le> length (py_strip sentence)
                     \<and> py_isdigit (py_strip sentence ! (length (py_strip sentence) - 2))
                  then ([], sentence)
                  else ([TtsPut (Some sentence)], []))
            else ([], sentence))
      else ([], sentence_for_tts))"

text \<open>
  The loop over the chunks of the reply. Each chunk comes with the value that
  \<^verbatim>\<open>self.interrupt_reply.is_set() or self.exit_chat.is_set()\<close> has when the chunk arrives:
  other threads set the two flags. The result is the sequence of events and the way the
  generator ends: \<open>Inr ()\<close> when its body runs to the end, \<open>Inl RuntimeError\<close> when it
  executes \<^verbatim>\<open>raise StopIteration\<close>. A \<^verbatim>\<open>StopIteration\<close> raised in the body of a generator
  does not end the iteration: Python replaces it by
  \<^verbatim>\<open>RuntimeError("generator raised StopIteration")\<close>, which is what the \<^verbatim>\<open>for\<close> loop that
  consumes the generator receives.
\<close>

fun answer_loop ::
  "bool \<Rightarrow> string \<Rightarrow> (bool \<times> answer_chunk) list \<Rightarrow> chat_event list \<times> (py_error + unit)" where
  "answer_loop reply_only_as_text sentence_for_tts [] =
     ((if sentence_for_tts \<noteq> [] \<and> \<not> reply_only_as_text
       then [TtsPut (Some sentence_for_tts)] else []) @ [TtsPut None],
      Inr ())"
| "answer_loop reply_only_as_text sentence_for_tts ((stop_flag, answer_chunk) # chunks) =
     (if stop_flag then ([], Inl RuntimeError)
      else
        (case accumulate_sentence reply_only_as_text sentence_for_tts answer_chunk of
           (puts, sentence) \<Rightarrow>
             (case answer_loop reply_only_as_text sentence chunks of
                (events, outcome) \<Rightarrow> (Yield answer_chunk # puts @ events, outcome))))"

definition answer_question ::
  "bool \<Rightarrow> (bool \<times> answer_chunk) list \<Rightarrow> chat_event list \<times> (py_error + unit)" where
  "answer_question reply_only_as_text chunks =
     (case answer_loop reply_only_as_text [] chunks of
        (events, outcome) \<Rightarrow> (ClearAnswerAudios # events, outcome))"

text \<open>The items put on \<^verbatim>\<open>tts_conversion_queue\<close>, in their order.\<close>

fun tts_puts :: "chat_event list \<Rightarrow> string option list" where
  "tts_puts [] = []"
| "tts_puts (TtsPut item # events) = item # tts_puts events"
| "tts_puts (_ # events) = tts_puts events"

text \<open>
  The loop of \<^verbatim>\<open>start\<close> that consumes the generator: it runs between a \<^verbatim>\<open>yield\<close> and the
  generator's next step. For the first chunk of code it puts the message \<open>msg\<close> (the
  translation of "I'll write the code in the text output.") on the queue; it prints the
  content of every chunk of code. The state is \<^verbatim>\<open>info_printed\<close>.
\<close>

fun consume_chunks :: "string \<Rightarrow> bool \<Rightarrow> chat_event list \<Rightarrow> chat_event list \<times> bool" where
  "consume_chunks msg info_printed [] = ([], info_printed)"
| "consume_chunks msg info_printed (Yield chunk # events) =
     (if chunk_type chunk \<noteq> ''code''
      then (case consume_chunks msg info_printed events of
              (es, info) \<Rightarrow> (Yield chunk # es, info))
      else (case consume_chunks msg True events of
              (es, info) \<Rightarrow>
                (Yield chunk # (if \<not> info_printed then [TtsPut (Some msg)] else [])
                   @ Print (content chunk) # es, info)))"
| "consume_chunks msg info_printed (e # events) =
     (case consume_chunks msg info_printed events of (es, info) \<Rightarrow> (e # es, info))"

text \<open>
  One question answered by \<^verbatim>\<open>start\<close>. An exception of the generator leaves the loop, and
  the last \<^verbatim>\<open>print\<close> is not reached; \<^verbatim>\<open>start\<close> catches \<^verbatim>\<open>KeyboardInterrupt\<close> and
  \<^verbatim>\<open>EOFError\<close> only, so the \<^verbatim>\<open>RuntimeError\<close> leaves \<^verbatim>\<open>start\<close> too.
\<close>

definition answer_in_start ::
  "string \<Rightarrow> bool \<Rightarrow> (bool \<times> answer_chunk) list \<Rightarrow> chat_event list \<times> (py_error + unit)" where
  "answer_in_start msg reply_only_as_text chunks =
     (case answer_question reply_only_as_text chunks of
        (events, outcome) \<Rightarrow>
          (case consume_chunks msg False events of
             (es, info_printed) \<Rightarrow>
               (es @ (if outcome = Inr () \<and> info_printed then [Print [CHR 0x0A, CHR 0x0A]] else []),
                outcome)))"

section \<open>Audio segments and the attributes of the chat\<close>

text \<open>
  An \<^verbatim>\<open>AudioSegment\<close> of pydub is kept by the number of its frames (the length of its data
  divided by the width of a frame, below \<open>2 ^ 63\<close>) and by its frame rate; the samples are
  not modelled. \<^verbatim>\<open>duration_seconds\<close> is pydub's property
  \<^verbatim>\<open>self.frame_rate and self.frame_count() / self.frame_rate or 0.0\<close>, a division of
  \<^verbatim>\<open>float\<close>s.
\<close>

record audio_segment =
  frame_count :: nat
  frame_rate :: nat

definition duration_seconds :: "audio_segment \<Rightarrow> real" where
  "duration_seconds audio =
     (if frame_rate audio = 0 then 0
      else fdiv (float_of_int (int (frame_count audio))) (float_of_int (int (frame_rate audio))))"

text \<open>
  The time that the segment takes to play, in milliseconds and rounded up: on a clock of
  whole milliseconds, a sound started at \<open>a\<close> is heard at the time \<open>t\<close> exactly when
  \<open>a \<le> t < a + duration_ms audio\<close>.
\<close>

definition duration_ms :: "audio_segment \<Rightarrow> nat" where
  "duration_ms audio =
     (if frame_rate audio = 0 then 0
      else (1000 * frame_count audio + frame_rate audio - 1) div frame_rate audio)"

text \<open>\<^verbatim>\<open>AudioSegment.empty()\<close> has no data and the frame rate 1.\<close>

definition audio_empty :: audio_segment where
  "audio_empty = \<lparr>frame_count = 0, frame_rate = 1\<rparr>"

text \<open>
  \<^verbatim>\<open>set_frame_rate\<close>: a segment that has the rate already is returned as it is; otherwise
  data that is not empty is resampled by \<^verbatim>\<open>audioop.ratecv\<close>. The number of frames that
  \<^verbatim>\<open>ratecv\<close> returns for \<open>n\<close> frames converted from one rate to another is the argument
  \<open>ratecv\<close>.
\<close>

definition set_frame_rate ::
  "(nat \<Rightarrow> nat \<Rightarrow> nat \<Rightarrow> nat) \<Rightarrow> audio_segment \<Rightarrow> nat \<Rightarrow> audio_segment" where
  "set_frame_rate ratecv audio rate =
     (if rate = frame_rate audio then audio
      else \<lparr>frame_count =
              (if frame_count audio = 0 then 0
               else ratecv (frame_count audio) (frame_rate audio) rate),
            frame_rate = rate\<rparr>)"

text \<open>
  \<^verbatim>\<open>a + b\<close> is \<^verbatim>\<open>a.append(b, crossfade=0)\<close>: both segments are brought to the higher of the
  two frame rates, and their data is joined. (The number of channels and the sample width
  are brought to their maxima too, which leaves the number of frames as it is.)
\<close>

definition audio_add ::
  "(nat \<Rightarrow> nat \<Rightarrow> nat \<Rightarrow> nat) \<Rightarrow> audio_segment \<Rightarrow> audio_segment \<Rightarrow> audio_segment" where
  "audio_add ratecv a b =
     (let rate = max (frame_rate a) (frame_rate b);
          seg1 = set_frame_rate ratecv a rate;
          seg2 = set_frame_rate ratecv b rate
      in \<lparr>frame_count = frame_count seg1 + frame_count seg2, frame_rate = rate\<rparr>)"

text \<open>The attributes of the chat object that the modelled methods read.\<close>

record voice_chat =
  min_speech_duration_seconds :: real
  exit_expressions :: "string list"

text \<open>A \<^verbatim>\<open>TextToSpeech\<close> object: the text and the speech converted from it.\<close>

record text_to_speech =
  tts_text :: string
  speech :: audio_segment

section \<open>The text-to-speech worker (\<^verbatim>\<open>VoiceChat.handle_tts_queue\<close>)\<close>

text \<open>
  What the worker does for one item of \<^verbatim>\<open>tts_conversion_queue\<close>: it converts a text, puts
  a speech (or \<^verbatim>\<open>None\<close>) on \<^verbatim>\<open>current_answer_audios_queue\<close>, puts a \<^verbatim>\<open>TextToSpeech\<close> (or
  \<^verbatim>\<open>None\<close>) on \<^verbatim>\<open>play_speech_queue\<close>.
\<close>

datatype tts_event =
  TtsConvert string
| AudiosPut "audio_segment option"
| PlayPut "text_to_speech option"

text \<open>
  One iteration of the loop. \<open>interrupt_set\<close> is what \<^verbatim>\<open>self.interrupt_reply.is_set()\<close>
  returns in this iteration; \<open>convert\<close> is the text-to-speech service, whose exception is
  logged by the worker.
\<close>

definition handle_tts_item ::
  "(string \<Rightarrow> py_error + audio_segment) \<Rightarrow> bool \<Rightarrow> string option \<Rightarrow> tts_event list" where
  "handle_tts_item convert interrupt_set item =
     (case item of
        None \<Rightarrow> [AudiosPut None, PlayPut None]
      | Some unstripped \<Rightarrow>
          (let text_arg = py_strip unstripped
           in if text_arg \<noteq> [] \<and> \<not> interrupt_set
              then (case convert text_arg of
                      Inl error \<Rightarrow> [TtsConvert text_arg]
                    | Inr audio \<Rightarrow>
                        [TtsConvert text_arg, AudiosPut (Some audio),
                         PlayPut (Some \<lparr>tts_text = text_arg, speech = audio\<rparr>)])
              else []))"

fun handle_tts_queue ::
  "(string \<Rightarrow> py_error + audio_segment) \<Rightarrow> (bool \<times> string option) list \<Rightarrow> tts_event list" where
  "handle_tts_queue convert [] = []"
| "handle_tts_queue convert ((interrupt_set, item) # items) =
     handle_tts_item convert interrupt_set item @ handle_tts_queue convert items"

section \<open>The playback worker (\<^verbatim>\<open>VoiceChat.handle_speech_queue\<close> and \<^verbatim>\<open>VoiceChat.speak\<close>)\<close>

text \<open>
  The state of the playback: the time in milliseconds, the sounds given to the mixer, each
  with the time it starts and the time it ends at (a sound started at \<open>a\<close> that ends at
  \<open>b\<close> is heard at every time \<open>t\<close> with \<open>a \<le> t < b\<close>), and the items put on
  \<^verbatim>\<open>check_for_interrupt_expressions_queue\<close>.
\<close>

record playback =
  clock :: nat
  sounds :: "(nat \<times> nat) list"
  interrupt_checks :: "(string \<times> audio_segment) list"

definition heard_at :: "playback \<Rightarrow> nat \<Rightarrow> bool" where
  "heard_at pb t = list_ex (\<lambda>(a, b). a \<le> t \<and> t < b) (sounds pb)"

text \<open>\<^verbatim>\<open>mixer.get_busy()\<close>, and \<^verbatim>\<open>mixer.stop()\<close>, which ends every sound now.\<close>

definition mixer_get_busy :: "playback \<Rightarrow> bool" where
  "mixer_get_busy pb = heard_at pb (clock pb)"

definition mixer_stop :: "playback \<Rightarrow> playback" where
  "mixer_stop pb = pb\<lparr>sounds := map (\<lambda>(a, b). (a, min b (clock pb))) (sounds pb)\<rparr>"

definition busy_until :: "playback \<Rightarrow> nat" where
  "busy_until pb = fold max (map snd (sounds pb)) 0"

text \<open>The loop \<^verbatim>\<open>while self.mixer.get_busy(): pygame.time.wait(100)\<close>.\<close>

function wait_while_busy :: "playback \<Rightarrow> playback" where
  "wait_while_busy pb =
     (if mixer_get_busy pb then wait_while_busy (pb\<lparr>clock := clock pb + 100\<rparr>) else pb)"
  by pat_completeness auto
termination
proof (relation "measure (\<lambda>pb. busy_until pb - clock pb)")
  show "wf (measure (\<lambda>pb. busy_until pb - clock pb))" by simp
next
  fix pb :: playback
  assume busy: "mixer_get_busy pb"
  have bound: "list_ex (\<lambda>(a, b). a \<le> t \<and> t < b) xs \<Longrightarrow> t < fold max (map snd xs) m"
    for t m and xs :: "(nat \<times> nat) list"
  proof (induction xs arbitrary: m)
    case Nil
    then show ?case by simp
  next
    case (Cons x xs)
    have mono: "m \<le> fold max (map snd ys) m" for m and ys :: "(nat \<times> nat) list"
    proof (induction ys arbitrary: m)
      case Nil
      show ?case by simp
    next
      case (Cons y ys)
      have "m \<le> max (snd y) m" by simp
      also have "\<dots> \<le> fold max (map snd ys) (max (snd y) m)" by (rule Cons.IH)
      finally show ?case by simp
    qed
    show ?case
    proof (cases "list_ex (\<lambda>(a, b). a \<le> t \<and> t < b) xs")
      case True
      then show ?thesis using Cons.IH by simp
    next
      case False
      with Cons.prems have "t < snd x" by (auto split: prod.splits)
      then have "t < max (snd x) m" by simp
      also have "\<dots> \<le> fold max (map snd xs) (max (snd x) m)" by (rule mono)
      finally show ?thesis by simp
    qed
  qed
  from busy have "clock pb < busy_until pb"
    unfolding mixer_get_busy_def heard_at_def busy_until_def by (rule bound)
  then show "(pb\<lparr>clock := clock pb + 100\<rparr>, pb) \<in> measure (\<lambda>pb. busy_until pb - clock pb)"
    by (simp add: busy_until_def)
qed

declare wait_while_busy.simps [simp del]

text \<open>
  \<^verbatim>\<open>speak(tts)\<close>: the sound starts to play, \<^verbatim>\<open>listen\<close> records the microphone and returns
  after \<open>listen_ms\<close> milliseconds with the recording \<open>user_audio\<close> (both come from the
  device), the text and the recording are put on the queue of the interrupt watcher, and
  the method waits until the mixer is no longer busy.
\<close>

definition speak :: "playback \<Rightarrow> text_to_speech \<Rightarrow> nat \<times> audio_segment \<Rightarrow> playback" where
  "speak pb tts listened =
     (case listened of
        (listen_ms, user_audio) \<Rightarrow>
          (let playing = pb\<lparr>sounds := sounds pb @ [(clock pb, clock pb + duration_ms (speech tts))]\<rparr>;
               recorded = playing\<lparr>clock := clock playing + listen_ms\<rparr>;
               queued = recorded\<lparr>interrupt_checks :=
                          interrupt_checks recorded @ [(tts_text tts, user_audio)]\<rparr>
           in wait_while_busy queued))"

text \<open>
  One iteration of the loop of \<^verbatim>\<open>handle_speech_queue\<close>. \<open>interrupt_reply t\<close> is the value
  of the flag \<^verbatim>\<open>self.interrupt_reply\<close> at the time \<open>t\<close>; other threads set and clear it.
\<close>

definition handle_speech_item ::
  "(nat \<Rightarrow> bool) \<Rightarrow> playback \<Rightarrow> text_to_speech option \<Rightarrow> nat \<times> audio_segment \<Rightarrow> playback" where
  "handle_speech_item interrupt_reply pb item listened =
     (case item of
        None \<Rightarrow> pb
      | Some tts \<Rightarrow> if \<not> interrupt_reply (clock pb) then speak pb tts listened else pb)"

text \<open>
  The head of the loop of \<^verbatim>\<open>start\<close>, once the three \<^verbatim>\<open>join\<close>s have returned: every item
  of the queues has been handled by then, so \<open>pb\<close> is the state that the playback worker
  has left. With the flag set the queue of the interrupt watcher is cleared, the mixer is
  stopped and the thread sleeps for a quarter of a second. The questions queue, which is
  cleared too, and the chimes are not part of the state.
\<close>

definition start_after_join :: "(nat \<Rightarrow> bool) \<Rightarrow> playback \<Rightarrow> playback" where
  "start_after_join interrupt_reply pb =
     (if interrupt_reply (clock pb)
      then (mixer_stop (pb\<lparr>interrupt_checks := []\<rparr>))\<lparr>clock := clock pb + 250\<rparr>
      else pb)"

section \<open>The audio history worker (\<^verbatim>\<open>VoiceChat.handle_update_audio_history\<close>)\<close>

text \<open>
  The state of the worker and of what it writes: the merge buffer \<^verbatim>\<open>merged_audio\<close>, the
  audio file of the last message exchange in the history database, the MP3 files exported
  so far, and the items that wait in \<^verbatim>\<open>last_answer_full_audio_fpath\<close>, which is a
  \<^verbatim>\<open>queue.Queue(maxsize=1)\<close>.
\<close>

record audio_history =
  merged_audio :: audio_segment
  assistant_reply_audio_file :: "string option"
  mp3_files :: "(string \<times> audio_segment) list"
  last_answer_full_audio_fpath :: "string option list"

text \<open>
  What an iteration gets from outside: the path built from the clock and the cache
  directory, whether the update of the database or the export of the file raises, and
  whether another thread takes the item that occupies \<^verbatim>\<open>last_answer_full_audio_fpath\<close>
  while the worker waits to put its own. (The web app takes the items, with
  \<^verbatim>\<open>get(timeout=2)\<close>; \<^verbatim>\<open>VoiceChat.start\<close> never does.)
\<close>

record history_io =
  audio_file_path :: string
  update_raises :: bool
  export_raises :: bool
  consumer_gets :: bool

text \<open>
  \<^verbatim>\<open>Queue.put(item)\<close> on a queue of size \<open>maxsize\<close>, with no timeout: the item is appended
  when there is room; on a full queue the call waits until a consumer has taken an item,
  and it never returns (the result \<open>None\<close>) when no consumer does.
\<close>

definition queue_put :: "nat \<Rightarrow> 'a list \<Rightarrow> bool \<Rightarrow> 'a \<Rightarrow> 'a list option" where
  "queue_put maxsize items consumer_takes item =
     (if length items < maxsize then Some (items @ [item])
      else if consumer_takes then Some (tl items @ [item])
      else None)"

text \<open>
  How an iteration of the worker ends: it comes back to the head of the loop, or the thread
  waits in \<^verbatim>\<open>put\<close> for ever; both with the state as it is then.
\<close>

datatype worker_step = Returns audio_history | Blocks audio_history

fun worker_state :: "worker_step \<Rightarrow> audio_history" where
  "worker_state (Returns h) = h"
| "worker_state (Blocks h) = h"

text \<open>
  One iteration of the loop, for the item taken from \<^verbatim>\<open>current_answer_audios_queue\<close>. An
  exception is caught and logged at the end of the iteration, with the state as it is then.
  Below the threshold the merge buffer is emptied before the \<^verbatim>\<open>put\<close>; otherwise it is
  emptied after the \<^verbatim>\<open>put\<close> has returned.
\<close>

definition handle_audio_item ::
  "(nat \<Rightarrow> nat \<Rightarrow> nat \<Rightarrow> nat) \<Rightarrow> voice_chat \<Rightarrow> audio_history \<Rightarrow> audio_segment option
     \<Rightarrow> history_io \<Rightarrow> worker_step" where
  "handle_audio_item ratecv self h new_audio io =
     (case new_audio of
        Some audio \<Rightarrow> Returns (h\<lparr>merged_audio := audio_add ratecv (merged_audio h) audio\<rparr>)
      | None \<Rightarrow>
          if duration_seconds (merged_audio h) < min_speech_duration_seconds self
          then (let emptied = h\<lparr>merged_audio := audio_empty\<rparr>
                in case queue_put 1 (last_answer_full_audio_fpath emptied) (consumer_gets io) None of
                     None \<Rightarrow> Blocks emptied
                   | Some items \<Rightarrow> Returns (emptied\<lparr>last_answer_full_audio_fpath := items\<rparr>))
          else if update_raises io then Returns h
          else if export_raises io
          then Returns (h\<lparr>assistant_reply_audio_file := Some (audio_file_path io)\<rparr>)
          else (let stored = h\<lparr>assistant_reply_audio_file := Some (audio_file_path io),
                                mp3_files := mp3_files h @ [(audio_file_path io, merged_audio h)]\<rparr>
                in case queue_put 1 (last_answer_full_audio_fpath stored) (consumer_gets io)
                          (Some (audio_file_path io)) of
                     None \<Rightarrow> Blocks stored
                   | Some items \<Rightarrow>
                       Returns (stored\<lparr>last_answer_full_audio_fpath := items,
                                       merged_audio := audio_empty\<rparr>)))"

text \<open>The loop of the worker over the items of its queue; it ends where the thread waits.\<close>

fun handle_update_audio_history ::
  "(nat \<Rightarrow> nat \<Rightarrow> nat \<Rightarrow> nat) \<Rightarrow> voice_chat \<Rightarrow> audio_history
     \<Rightarrow> (audio_segment option \<times> history_io) list \<Rightarrow> worker_step" where
  "handle_update_audio_history ratecv self h [] = Returns h"
| "handle_update_audio_history ratecv self h ((new_audio, io) # items) =
     (case handle_audio_item ratecv self h new_audio io of
        Returns h' \<Rightarrow> handle_update_audio_history ratecv self h' items
      | Blocks h' \<Rightarrow> Blocks h')"

section \<open>Listening for questions (\<^verbatim>\<open>VoiceChat.handle_question_listening\<close>)\<close>

text \<open>
  What an iteration does: a call of the speech-to-text service, an item put on
  \<^verbatim>\<open>questions_queue\<close> (a question, or \<^verbatim>\<open>None\<close> to leave the chat).
\<close>

datatype listening_event =
  SttCall audio_segment
| QuestionsPut "string option"

text \<open>
  One iteration of the loop when the assistant is not replying, for the result \<open>audio\<close> of
  \<^verbatim>\<open>self.listen()\<close>. \<open>stt\<close> is the speech-to-text service (an exception is logged by
  the worker) and \<open>lower_alphanumeric\<close> is \<^verbatim>\<open>_get_lower_alphanumeric\<close> of
  \<^verbatim>\<open>general_utils\<close>. The shortest prompt is the local constant
  \<^verbatim>\<open>minimum_prompt_duration_seconds = 0.05\<close>, the binary64 number nearest to 0.05.
\<close>

definition handle_question_item ::
  "voice_chat \<Rightarrow> (audio_segment \<Rightarrow> py_error + string) \<Rightarrow> (string \<Rightarrow> string)
     \<Rightarrow> audio_segment option \<Rightarrow> listening_event list" where
  "handle_question_item self stt lower_alphanumeric audio =
     (let minimum_prompt_duration_seconds = round64 0.05
      in case audio of
           None \<Rightarrow> [QuestionsPut None]
         | Some a \<Rightarrow>
             if duration_seconds a < minimum_prompt_duration_seconds then []
             else (case stt a of
                     Inl error \<Rightarrow> [SttCall a]
                   | Inr question \<Rightarrow>
                       SttCall a #
                       (if list_ex (\<lambda>expr. startswith (lower_alphanumeric question)
                                                        (lower_alphanumeric expr))
                                   (exit_expressions self)
                        then [QuestionsPut None]
                        else if question \<noteq> [] then [QuestionsPut (Some question)]
                        else [])))"

section \<open>Properties of the prompt queue filter\<close>

lemma filter_page_loop_eq:
  "filter_page_loop p q own others =
     (own @ filter (\<lambda>e. page_id e = p) q, others @ filter (\<lambda>e. page_id e \<noteq> p) q)"
  by (induction q arbitrary: own others) simp_all

lemma mset_partition_by_page:
  "mset (filter (\<lambda>e. page_id e = p) q) + mset (filter (\<lambda>e. page_id e \<noteq> p) q) = mset q"
  by (induction q) simp_all

text \<open>
  Claim C8. \<^verbatim>\<open>filter_page_info_from_queue(app_page, Q)\<close> returns exactly the entries of
  \<^verbatim>\<open>Q\<close> whose page id is the page's, in the order they were enqueued, and leaves in
  \<^verbatim>\<open>Q\<close> all the other entries, in their order; together the two queues hold every entry
  of \<^verbatim>\<open>Q\<close> as often as \<^verbatim>\<open>Q\<close> did.
\<close>

theorem filter_page_info_from_queue_partitions:
  "fst (filter_page_info_from_queue p q) = filter (\<lambda>e. page_id e = p) q
   \<and> snd (filter_page_info_from_queue p q) = filter (\<lambda>e. page_id e \<noteq> p) q
   \<and> mset (fst (filter_page_info_from_queue p q)) + mset (snd (filter_page_info_from_queue p q))
       = mset q"
  by (simp add: filter_page_info_from_queue_def filter_page_loop_eq mset_partition_by_page)

section \<open>Properties of the token usage database\<close>

lemmas float_eval = round64_def binade_def round_half_even_def bitlen_def compute_floorlog
  float_of_int_def fadd_def fmul_def fdiv_def Let_def

lemma fadd_zero: "fadd 0 x = round64 x"
  by (simp add: fadd_def)

lemma gpt4_row_costs:
  "fmul (float_of_int 1000) (fdiv (round64 (3 / 100)) 1000) = round64 (3 / 100)"
  "fmul (float_of_int 500) (fdiv (round64 (3 / 50)) 1000) = round64 (3 / 100)"
  "fadd (round64 (round64 (3 / 100))) (round64 (3 / 100)) = round64 (3 / 50)"
  "round64 (round64 (3 / 50)) = round64 (3 / 50)"
  by (simp_all add: float_eval)

lemma token_price_lookup:
  "map_of token_price (Some m) =
     (case map_of PRICE_PER_THOUSAND_TOKENS (Some m) of None \<Rightarrow> None
      | Some p \<Rightarrow> Some \<lparr>price_input = fdiv (price_input p) 1000,
                        price_output = fdiv (price_output p) 1000\<rparr>)"
  by (simp add: token_price_def PRICE_PER_THOUSAND_TOKENS_def)

lemma insert_all_rows:
  "insert_all db cs = (Inr (), db') \<Longrightarrow> distinct (map call_time cs) \<Longrightarrow>
   set (map call_time cs) \<inter> set (map timestamp db) = {} \<Longrightarrow>
   db' = db @ concat (map (\<lambda>c. case call_model c of None \<Rightarrow> [] | Some m \<Rightarrow>
      [\<lparr>timestamp = call_time c, model = m, n_input_tokens = call_n_in c, n_output_tokens = call_n_out c,
        cost_input_tokens =
          fmul (float_of_int (call_n_in c)) (price_input (the (map_of token_price (Some m)))),
        cost_output_tokens =
          fmul (float_of_int (call_n_out c)) (price_output (the (map_of token_price (Some m))))\<rparr>]) cs)
   \<and> (\<forall>c \<in> set cs. \<forall>m. call_model c = Some m \<longrightarrow> map_of token_price (Some m) \<noteq> None)"
proof (induction cs arbitrary: db)
  case Nil
  then show ?case by simp
next
  case (Cons c cs)
  show ?case
  proof (cases "call_model c")
    case None
    with Cons.prems have "insert_all db cs = (Inr (), db')"
      by (simp add: insert_data_def)
    from Cons.IH[OF this] Cons.prems(2,3) None show ?thesis by auto
  next
    case (Some m)
    show ?thesis
    proof (cases "map_of token_price (Some m)")
      case None
      with Some Cons.prems(1) show ?thesis by (simp add: insert_data_def)
    next
      case (Some p)
      let ?row = "\<lparr>timestamp = call_time c, model = m, n_input_tokens = call_n_in c, n_output_tokens = call_n_out c,
        cost_input_tokens = fmul (float_of_int (call_n_in c)) (price_input p),
        cost_output_tokens = fmul (float_of_int (call_n_out c)) (price_output p)\<rparr>"
      from Cons.prems(3) have nf: "filter (\<lambda>r. timestamp r \<noteq> call_time c) db = db"
        by (force simp: filter_id_conv)
      with Cons.prems(1) \<open>call_model c = Some m\<close> Some
      have ia: "insert_all (db @ [?row]) cs = (Inr (), db')"
        by (simp add: insert_data_def insert_or_replace_def split: if_splits)
      from Cons.prems(2,3) have "set (map call_time cs) \<inter> set (map timestamp (db @ [?row])) = {}"
        by auto
      from Cons.IH[OF ia _ this] Cons.prems(2) \<open>call_model c = Some m\<close> Some
      show ?thesis by auto
    qed
  qed
qed

lemma sql_sum_int_eq: "sql_sum_int acc vs = Inr s \<Longrightarrow> s = acc + sum_list vs"
proof (induction vs arbitrary: acc)
  case Nil
  then show ?case by simp
next
  case (Cons v vs)
  from Cons.prems have "sql_sum_int (acc + v) vs = Inr s"
    by (simp split: if_splits)
  from Cons.IH [OF this] show ?case by simp
qed

lemma aggregate_Inr:
  "aggregate sum_real rows = Inr s \<Longrightarrow>
     s = \<lparr>earliest_timestamp = min_list (map timestamp rows),
          total_n_input_tokens = sum_list (map n_input_tokens rows),
          total_n_output_tokens = sum_list (map n_output_tokens rows),
          total_cost_input_tokens = sum_real (map cost_input_tokens rows),
          total_cost_output_tokens = sum_real (map cost_output_tokens rows)\<rparr>"
  by (auto simp: aggregate_def split: sum.splits dest: sql_sum_int_eq)

lemma all_groups_Inr:
  "all_groups xs = Inr groups \<Longrightarrow> xs = map (\<lambda>(m, s). (m, Inr s)) groups"
  by (induction xs arbitrary: groups rule: all_groups.induct) (auto split: sum.splits)

lemma groups_of_db:
  assumes "retrieve_sums_by_model sum_real db = Inr groups"
  shows "map fst groups = remdups (map model db)"
    and "\<And>m s. (m, s) \<in> set groups \<Longrightarrow> aggregate sum_real (filter (\<lambda>r. model r = m) db) = Inr s"
proof -
  from assms have eq: "map (\<lambda>m. (m, aggregate sum_real (filter (\<lambda>r. model r = m) db))) (remdups (map model db))
      = map (\<lambda>(m, s). (m, Inr s)) groups"
    unfolding retrieve_sums_by_model_def by (rule all_groups_Inr)
  from arg_cong [OF eq, of "map fst"]
  show "map fst groups = remdups (map model db)"
    by (simp add: comp_def case_prod_unfold)
  fix m s
  assume "(m, s) \<in> set groups"
  then have "(m, Inr s) \<in> set (map (\<lambda>(m, s). (m, Inr s)) groups)" by force
  with eq have "(m, Inr s) \<in> set (map (\<lambda>m. (m, aggregate sum_real (filter (\<lambda>r. model r = m) db)))
      (remdups (map model db)))"
    by simp
  then show "aggregate sum_real (filter (\<lambda>r. model r = m) db) = Inr s" by auto
qed

lemma sums_by_model_lookup:
  assumes "retrieve_sums_by_model sum_real db = Inr groups"
  shows "map_of groups m =
     (if filter (\<lambda>r. model r = m) db = [] then None
      else Some \<lparr>earliest_timestamp = min_list (map timestamp (filter (\<lambda>r. model r = m) db)),
          total_n_input_tokens = sum_list (map n_input_tokens (filter (\<lambda>r. model r = m) db)),
          total_n_output_tokens = sum_list (map n_output_tokens (filter (\<lambda>r. model r = m) db)),
          total_cost_input_tokens =
            sum_real (map cost_input_tokens (filter (\<lambda>r. model r = m) db)),
          total_cost_output_tokens =
            sum_real (map cost_output_tokens (filter (\<lambda>r. model r = m) db))\<rparr>)"
proof (cases "filter (\<lambda>r. model r = m) db = []")
  case True
  then have "m \<notin> set (remdups (map model db))" by (auto simp: filter_empty_conv)
  with groups_of_db(1) [OF assms] have "m \<notin> fst ` set groups"
    by (metis set_map)
  then have "map_of groups m = None" by (simp add: map_of_eq_None_iff)
  with True show ?thesis by simp
next
  case False
  then have "m \<in> set (remdups (map model db))" by (auto simp: filter_empty_conv)
  with groups_of_db(1) [OF assms] have "m \<in> fst ` set groups"
    by (metis set_map)
  moreover from groups_of_db(1) [OF assms] have "distinct (map fst groups)" by simp
  ultimately obtain s where s: "map_of groups m = Some s" "(m, s) \<in> set groups"
    by (metis map_of_eq_None_iff map_of_SomeD not_Some_eq)
  from aggregate_Inr [OF groups_of_db(2) [OF assms s(2)]] s(1) False show ?thesis by simp
qed

lemma rows_of_model:
  "filter (\<lambda>r. model r = m)
     (concat (map (\<lambda>c. case call_model c of None \<Rightarrow> [] | Some m' \<Rightarrow> [g c m']) cs)) =
   concat (map (\<lambda>c. case call_model c of None \<Rightarrow> [] | Some m' \<Rightarrow> if model (g c m') = m then [g c m'] else []) cs)"
  by (induction cs) (auto split: option.splits)

lemma sums_by_model_priced:
  assumes d: "distinct (map call_time cs)" and ok: "insert_all [] cs = (Inr (), db)"
    and g: "retrieve_sums_by_model sum_real db = Inr groups"
    and p: "map_of PRICE_PER_THOUSAND_TOKENS (Some m) = Some p"
  shows "map_of groups m =
        (if filter (\<lambda>c. call_model c = Some m) cs = [] then None
         else Some
           \<lparr>earliest_timestamp = Min (call_time ` set (filter (\<lambda>c. call_model c = Some m) cs)),
            total_n_input_tokens = sum_list (map call_n_in (filter (\<lambda>c. call_model c = Some m) cs)),
            total_n_output_tokens = sum_list (map call_n_out (filter (\<lambda>c. call_model c = Some m) cs)),
            total_cost_input_tokens =
              sum_real (map (\<lambda>c. fmul (float_of_int (call_n_in c)) (fdiv (price_input p) 1000))
                                (filter (\<lambda>c. call_model c = Some m) cs)),
            total_cost_output_tokens =
              sum_real (map (\<lambda>c. fmul (float_of_int (call_n_out c)) (fdiv (price_output p) 1000))
                                (filter (\<lambda>c. call_model c = Some m) cs))\<rparr>)"
proof -
  let ?cm = "filter (\<lambda>c. call_model c = Some m) cs"
  let ?q = "\<lparr>price_input = fdiv (price_input p) 1000, price_output = fdiv (price_output p) 1000\<rparr>"
  have q: "map_of token_price (Some m) = Some ?q"
    using p by (simp add: token_price_lookup)
  let ?row = "\<lambda>c. \<lparr>timestamp = call_time c, model = m,
        n_input_tokens = call_n_in c, n_output_tokens = call_n_out c,
        cost_input_tokens = fmul (float_of_int (call_n_in c)) (price_input ?q),
        cost_output_tokens = fmul (float_of_int (call_n_out c)) (price_output ?q)\<rparr>"
  from insert_all_rows[OF ok d] have db: "db = concat (map (\<lambda>c. case call_model c of None \<Rightarrow> [] | Some m \<Rightarrow>
      [\<lparr>timestamp = call_time c, model = m, n_input_tokens = call_n_in c, n_output_tokens = call_n_out c,
        cost_input_tokens =
          fmul (float_of_int (call_n_in c)) (price_input (the (map_of token_price (Some m)))),
        cost_output_tokens =
          fmul (float_of_int (call_n_out c)) (price_output (the (map_of token_price (Some m))))\<rparr>]) cs)"
    by simp
  have rows: "filter (\<lambda>r. model r = m) db = map ?row ?cm"
    unfolding db rows_of_model using q
    by (induction cs) (auto split: option.splits)
  show ?thesis
  proof (cases "?cm = []")
    case True
    then show ?thesis by (simp add: sums_by_model_lookup [OF g] rows)
  next
    case False
    then have "min_list (map call_time ?cm) = Min (call_time ` set ?cm)"
      by (simp add: min_list_Min)
    with False show ?thesis
      by (simp add: sums_by_model_lookup [OF g] rows comp_def)
  qed
qed

lemma sums_by_model_unpriced:
  assumes d: "distinct (map call_time cs)" and ok: "insert_all [] cs = (Inr (), db)"
    and g: "retrieve_sums_by_model sum_real db = Inr groups"
    and p: "map_of PRICE_PER_THOUSAND_TOKENS (Some m) = None"
  shows "map_of groups m = None"
proof -
  have q: "map_of token_price (Some m) = None"
    using p by (simp add: token_price_lookup)
  from insert_all_rows[OF ok d] have db: "db = concat (map (\<lambda>c. case call_model c of None \<Rightarrow> [] | Some m \<Rightarrow>
      [\<lparr>timestamp = call_time c, model = m, n_input_tokens = call_n_in c, n_output_tokens = call_n_out c,
        cost_input_tokens =
          fmul (float_of_int (call_n_in c)) (price_input (the (map_of token_price (Some m)))),
        cost_output_tokens =
          fmul (float_of_int (call_n_out c)) (price_output (the (map_of token_price (Some m))))\<rparr>]) cs)"
    and known: "\<forall>c \<in> set cs. \<forall>m. call_model c = Some m \<longrightarrow> map_of token_price (Some m) \<noteq> None"
    by simp_all
  from known q have "\<forall>c \<in> set cs. call_model c \<noteq> Some m" by auto
  then have "filter (\<lambda>r. model r = m) db = []"
    unfolding db rows_of_model by (induction cs) (auto split: option.splits)
  then show ?thesis by (simp add: sums_by_model_lookup [OF g])
qed





lemma sql_sum_int_returns:
  "\<forall>v \<in> set vs. 0 \<le> v \<Longrightarrow> 0 \<le> acc \<Longrightarrow> acc + sum_list vs < 2 ^ 63 \<Longrightarrow>
   sql_sum_int acc vs = Inr (acc + sum_list vs)"
proof (induction vs arbitrary: acc)
  case Nil
  show ?case by simp
next
  case (Cons v vs)
  from Cons.prems have v: "0 \<le> v" and rest: "0 \<le> sum_list vs"
    by (simp_all add: sum_list_nonneg)
  with Cons.prems have "int64 (acc + v)" by (simp add: int64_def)
  moreover from Cons.prems v have "sql_sum_int (acc + v) vs = Inr (acc + v + sum_list vs)"
    by (intro Cons.IH) (simp_all add: add.assoc)
  ultimately show ?case by (simp add: add.assoc)
qed

lemma sum_list_filter_le:
  "\<forall>x \<in> set xs. (0 :: int) \<le> f x \<Longrightarrow> sum_list (map f (filter P xs)) \<le> sum_list (map f xs)"
  by (induction xs) (auto simp: add_increasing)

lemma all_groups_returns:
  "\<forall>x \<in> set gs. \<exists>s. snd x = Inr s \<Longrightarrow> \<exists>groups. all_groups gs = Inr groups"
proof (induction gs)
  case Nil
  show ?case by simp
next
  case (Cons x gs)
  obtain m g where x: "x = (m, g)" by (cases x)
  from Cons.prems x obtain s where "g = Inr s" by auto
  moreover from Cons obtain groups where "all_groups gs = Inr groups" by auto
  ultimately show ?case using x by simp
qed

lemma retrieve_sums_by_model_returns:
  assumes "\<forall>r \<in> set db. 0 \<le> n_input_tokens r \<and> 0 \<le> n_output_tokens r"
    and "sum_list (map n_input_tokens db) < 2 ^ 63"
    and "sum_list (map n_output_tokens db) < 2 ^ 63"
  shows "\<exists>groups. retrieve_sums_by_model sum_real db = Inr groups"
  unfolding retrieve_sums_by_model_def
proof (rule all_groups_returns, rule ballI)
  fix x
  assume "x \<in> set (map (\<lambda>m. (m, aggregate sum_real (filter (\<lambda>r. model r = m) db)))
                      (remdups (map model db)))"
  then obtain m where x: "x = (m, aggregate sum_real (filter (\<lambda>r. model r = m) db))" by auto
  let ?rows = "filter (\<lambda>r. model r = m) db"
  from assms(1) have "sum_list (map n_input_tokens ?rows) \<le> sum_list (map n_input_tokens db)"
    by (intro sum_list_filter_le) simp
  with assms(1,2) have "sql_sum_int 0 (map n_input_tokens ?rows)
      = Inr (0 + sum_list (map n_input_tokens ?rows))"
    by (intro sql_sum_int_returns) auto
  moreover
  from assms(1) have "sum_list (map n_output_tokens ?rows) \<le> sum_list (map n_output_tokens db)"
    by (intro sum_list_filter_le) simp
  with assms(1,3) have "sql_sum_int 0 (map n_output_tokens ?rows)
      = Inr (0 + sum_list (map n_output_tokens ?rows))"
    by (intro sql_sum_int_returns) auto
  ultimately show "\<exists>s. snd x = Inr s"
    unfolding x by (simp add: aggregate_def)
qed

text \<open>
  Claim C3, as the code has it. Take any sequence of calls of \<^verbatim>\<open>insert_data\<close> on an empty
  table that all return, at pairwise distinct timestamps. The query of
  \<^verbatim>\<open>retrieve_sums_by_model\<close> returns when no token count is negative and the sums of all
  the token counts are below \<open>2 ^ 63\<close>. Whenever it returns, there is an entry for a model
  exactly when a call named it; the entry holds the earliest timestamp and the sums of the
  token counts of the calls for that model, and each cost is the sum that SQLite computes
  (the argument \<open>sum_real\<close>) of the costs of these calls, a cost being the \<^verbatim>\<open>float\<close> product
  of the token count and the model's price of a thousand tokens divided by \<^verbatim>\<open>1000.0\<close>. A
  model without a price has no entry. Two calls for \<^verbatim>\<open>"gpt-4"\<close> with 1000 input and 500
  output tokens, at distinct timestamps, give the overall sums 2000 and 1000 and the costs
  \<^verbatim>\<open>0.06\<close> and \<^verbatim>\<open>0.06\<close>, the binary64 number that the literal stands for.
\<close>

theorem retrieve_sums_by_model_of_inserts:
  assumes "distinct (map call_time cs)" and "insert_all [] cs = (Inr (), db)"
  shows
    "((\<forall>r \<in> set db. 0 \<le> n_input_tokens r \<and> 0 \<le> n_output_tokens r)
        \<and> sum_list (map n_input_tokens db) < 2 ^ 63
        \<and> sum_list (map n_output_tokens db) < 2 ^ 63
      \<longrightarrow> (\<exists>groups. retrieve_sums_by_model sum_real db = Inr groups))
     \<and> (\<forall>groups m p.
          retrieve_sums_by_model sum_real db = Inr groups
          \<and> map_of PRICE_PER_THOUSAND_TOKENS (Some m) = Some p \<longrightarrow>
          map_of groups m =
            (if filter (\<lambda>c. call_model c = Some m) cs = [] then None
             else Some
               \<lparr>earliest_timestamp =
                  Min (call_time ` set (filter (\<lambda>c. call_model c = Some m) cs)),
                total_n_input_tokens =
                  sum_list (map call_n_in (filter (\<lambda>c. call_model c = Some m) cs)),
                total_n_output_tokens =
                  sum_list (map call_n_out (filter (\<lambda>c. call_model c = Some m) cs)),
                total_cost_input_tokens =
                  sum_real
                    (map (\<lambda>c. fmul (float_of_int (call_n_in c)) (fdiv (price_input p) 1000))
                         (filter (\<lambda>c. call_model c = Some m) cs)),
                total_cost_output_tokens =
                  sum_real
                    (map (\<lambda>c. fmul (float_of_int (call_n_out c)) (fdiv (price_output p) 1000))
                         (filter (\<lambda>c. call_model c = Some m) cs))\<rparr>))
     \<and> (\<forall>groups m.
          retrieve_sums_by_model sum_real db = Inr groups
          \<and> map_of PRICE_PER_THOUSAND_TOKENS (Some m) = None \<longrightarrow> map_of groups m = None)
     \<and> (\<forall>t1 t2. t1 \<noteq> t2 \<longrightarrow>
            retrieve_sums sql_sum_real
              (snd (insert_all []
                 [\<lparr>call_time = t1, call_model = Some ''gpt-4'', call_n_in = 1000, call_n_out = 500\<rparr>,
                  \<lparr>call_time = t2, call_model = Some ''gpt-4'', call_n_in = 1000, call_n_out = 500\<rparr>]))
            = Inr \<lparr>earliest_timestamp = round64 (min t1 t2),
                   total_n_input_tokens = 2000, total_n_output_tokens = 1000,
                   total_cost_input_tokens = round64 0.06,
                   total_cost_output_tokens = round64 0.06\<rparr>)"
proof (intro conjI allI impI)
  assume "(\<forall>r \<in> set db. 0 \<le> n_input_tokens r \<and> 0 \<le> n_output_tokens r)
        \<and> sum_list (map n_input_tokens db) < 2 ^ 63
        \<and> sum_list (map n_output_tokens db) < 2 ^ 63"
  then show "\<exists>groups. retrieve_sums_by_model sum_real db = Inr groups"
    by (intro retrieve_sums_by_model_returns) simp_all
next
  fix groups m p
  assume "retrieve_sums_by_model sum_real db = Inr groups
          \<and> map_of PRICE_PER_THOUSAND_TOKENS (Some m) = Some p"
  then have g: "retrieve_sums_by_model sum_real db = Inr groups"
    and p: "map_of PRICE_PER_THOUSAND_TOKENS (Some m) = Some p" by simp_all
  from assms g p show "map_of groups m =
            (if filter (\<lambda>c. call_model c = Some m) cs = [] then None
             else Some
               \<lparr>earliest_timestamp =
                  Min (call_time ` set (filter (\<lambda>c. call_model c = Some m) cs)),
                total_n_input_tokens =
                  sum_list (map call_n_in (filter (\<lambda>c. call_model c = Some m) cs)),
                total_n_output_tokens =
                  sum_list (map call_n_out (filter (\<lambda>c. call_model c = Some m) cs)),
                total_cost_input_tokens =
                  sum_real
                    (map (\<lambda>c. fmul (float_of_int (call_n_in c)) (fdiv (price_input p) 1000))
                         (filter (\<lambda>c. call_model c = Some m) cs)),
                total_cost_output_tokens =
                  sum_real
                    (map (\<lambda>c. fmul (float_of_int (call_n_out c)) (fdiv (price_output p) 1000))
                         (filter (\<lambda>c. call_model c = Some m) cs))\<rparr>)"
    by (rule sums_by_model_priced)
next
  fix groups m
  assume "retrieve_sums_by_model sum_real db = Inr groups
          \<and> map_of PRICE_PER_THOUSAND_TOKENS (Some m) = None"
  then have g: "retrieve_sums_by_model sum_real db = Inr groups"
    and p: "map_of PRICE_PER_THOUSAND_TOKENS (Some m) = None" by simp_all
  from assms g p show "map_of groups m = None"
    by (rule sums_by_model_unpriced)
next
  fix t1 t2 :: real
  assume "t1 \<noteq> t2"
  then show "retrieve_sums sql_sum_real
              (snd (insert_all []
                 [\<lparr>call_time = t1, call_model = Some ''gpt-4'', call_n_in = 1000, call_n_out = 500\<rparr>,
                  \<lparr>call_time = t2, call_model = Some ''gpt-4'', call_n_in = 1000, call_n_out = 500\<rparr>]))
            = Inr \<lparr>earliest_timestamp = round64 (min t1 t2),
                   total_n_input_tokens = 2000, total_n_output_tokens = 1000,
                   total_cost_input_tokens = round64 0.06,
                   total_cost_output_tokens = round64 0.06\<rparr>"
    by (simp add: insert_data_def token_price_def PRICE_PER_THOUSAND_TOKENS_def int64_def
          insert_or_replace_def retrieve_sums_def retrieve_sums_by_model_def aggregate_def
          sql_sum_real_def add_sums_def empty_sums_def fadd_zero gpt4_row_costs)
qed

theorem retrieve_sums_by_model_of_inserts_witness:
  "distinct (map call_time
      [\<lparr>call_time = 1, call_model = Some ''gpt-4'', call_n_in = 1000, call_n_out = 500\<rparr>,
       \<lparr>call_time = 2, call_model = Some ''gpt-3.5-turbo'', call_n_in = 2000, call_n_out = 0\<rparr>,
       \<lparr>call_time = 3, call_model = Some ''gpt-4'', call_n_in = 1000, call_n_out = 500\<rparr>])
   \<and> fst (insert_all []
      [\<lparr>call_time = 1, call_model = Some ''gpt-4'', call_n_in = 1000, call_n_out = 500\<rparr>,
       \<lparr>call_time = 2, call_model = Some ''gpt-3.5-turbo'', call_n_in = 2000, call_n_out = 0\<rparr>,
       \<lparr>call_time = 3, call_model = Some ''gpt-4'', call_n_in = 1000, call_n_out = 500\<rparr>]) = Inr ()
   \<and> (case retrieve_sums_by_model sql_sum_real (snd (insert_all []
      [\<lparr>call_time = 1, call_model = Some ''gpt-4'', call_n_in = 1000, call_n_out = 500\<rparr>,
       \<lparr>call_time = 2, call_model = Some ''gpt-3.5-turbo'', call_n_in = 2000, call_n_out = 0\<rparr>,
       \<lparr>call_time = 3, call_model = Some ''gpt-4'', call_n_in = 1000, call_n_out = 500\<rparr>])) of
        Inl e \<Rightarrow> False
      | Inr groups \<Rightarrow>
          map_of groups ''gpt-4''
            = Some \<lparr>earliest_timestamp = 1, total_n_input_tokens = 2000,
                    total_n_output_tokens = 1000,
                    total_cost_input_tokens = round64 0.06,
                    total_cost_output_tokens = round64 0.06\<rparr>)"
proof -
  let ?cs = "[\<lparr>call_time = 1, call_model = Some ''gpt-4'', call_n_in = 1000, call_n_out = 500\<rparr>,
       \<lparr>call_time = 2, call_model = Some ''gpt-3.5-turbo'', call_n_in = 2000, call_n_out = 0\<rparr>,
       \<lparr>call_time = 3, call_model = Some ''gpt-4'', call_n_in = 1000, call_n_out = 500\<rparr>]"
  let ?db = "snd (insert_all [] ?cs)"
  have d: "distinct (map call_time ?cs)" by simp
  have ok: "fst (insert_all [] ?cs) = Inr ()"
    by (simp add: insert_data_def token_price_def PRICE_PER_THOUSAND_TOKENS_def int64_def)
  then have ok': "insert_all [] ?cs = (Inr (), ?db)"
    by (metis prod.collapse)
  note t = retrieve_sums_by_model_of_inserts [OF d ok', of sql_sum_real]
  have bounds: "(\<forall>r \<in> set ?db. 0 \<le> n_input_tokens r \<and> 0 \<le> n_output_tokens r)
        \<and> sum_list (map n_input_tokens ?db) < 2 ^ 63
        \<and> sum_list (map n_output_tokens ?db) < 2 ^ 63"
    by (simp add: insert_data_def token_price_def PRICE_PER_THOUSAND_TOKENS_def int64_def
          insert_or_replace_def)
  with t have "\<exists>groups. retrieve_sums_by_model sql_sum_real ?db = Inr groups"
    by blast
  then obtain groups where g: "retrieve_sums_by_model sql_sum_real ?db = Inr groups" ..
  have p: "map_of PRICE_PER_THOUSAND_TOKENS (Some ''gpt-4'')
             = Some \<lparr>price_input = round64 0.03, price_output = round64 0.06\<rparr>"
    by (simp add: PRICE_PER_THOUSAND_TOKENS_def)
  from t g p
  have "map_of groups ''gpt-4'' =
          (if filter (\<lambda>c. call_model c = Some ''gpt-4'') ?cs = [] then None
           else Some
             \<lparr>earliest_timestamp =
                Min (call_time ` set (filter (\<lambda>c. call_model c = Some ''gpt-4'') ?cs)),
              total_n_input_tokens =
                sum_list (map call_n_in (filter (\<lambda>c. call_model c = Some ''gpt-4'') ?cs)),
              total_n_output_tokens =
                sum_list (map call_n_out (filter (\<lambda>c. call_model c = Some ''gpt-4'') ?cs)),
              total_cost_input_tokens =
                sql_sum_real
                  (map (\<lambda>c. fmul (float_of_int (call_n_in c))
                               (fdiv (price_input \<lparr>price_input = round64 0.03, price_output = round64 0.06\<rparr>) 1000))
                       (filter (\<lambda>c. call_model c = Some ''gpt-4'') ?cs)),
              total_cost_output_tokens =
                sql_sum_real
                  (map (\<lambda>c. fmul (float_of_int (call_n_out c))
                               (fdiv (price_output \<lparr>price_input = round64 0.03, price_output = round64 0.06\<rparr>) 1000))
                       (filter (\<lambda>c. call_model c = Some ''gpt-4'') ?cs))\<rparr>)"
    by blast
  then have "map_of groups ''gpt-4''
     = Some \<lparr>earliest_timestamp = 1, total_n_input_tokens = 2000, total_n_output_tokens = 1000,
             total_cost_input_tokens = round64 0.06, total_cost_output_tokens = round64 0.06\<rparr>"
    by (simp add: sql_sum_real_def fadd_zero gpt4_row_costs)
  with d ok g show ?thesis by simp
qed

text \<open>
  The claim as the specification states it (the cost is the number of tokens times the
  price of a thousand tokens, divided by 1000) fails. Two calls for \<^verbatim>\<open>"gpt-3.5-turbo"\<close>,
  with 1 and 7 input tokens and 3 and 7 output tokens, give 10 output tokens and the output
  cost \<^verbatim>\<open>1.9999999999999998e-05\<close>, which is neither the number \<open>10 * 0.002 / 1000\<close> nor what
  \<^verbatim>\<open>10 * 0.002 / 1000\<close> is in \<^verbatim>\<open>float\<close>s.
\<close>

theorem retrieve_sums_by_model_cost_counterexample:
  "retrieve_sums_by_model sql_sum_real (snd (insert_all []
      [\<lparr>call_time = 1, call_model = Some ''gpt-3.5-turbo'', call_n_in = 1, call_n_out = 3\<rparr>,
       \<lparr>call_time = 2, call_model = Some ''gpt-3.5-turbo'', call_n_in = 7, call_n_out = 7\<rparr>]))
     = Inr [(''gpt-3.5-turbo'',
             \<lparr>earliest_timestamp = 1, total_n_input_tokens = 8, total_n_output_tokens = 10,
              total_cost_input_tokens = 1770887431076117 / 147573952589676412928,
              total_cost_output_tokens = 368934881474191 / 18446744073709551616\<rparr>)]
   \<and> (368934881474191 / 18446744073709551616 :: real) \<noteq> 10 * 0.002 / 1000
   \<and> 368934881474191 / 18446744073709551616
        \<noteq> fdiv (fmul (float_of_int 10) (round64 0.002)) 1000"
proof -
  have costs:
    "fadd (round64 (fmul (float_of_int 1) (fdiv (round64 (3 / 2000)) 1000)))
          (fmul (float_of_int 7) (fdiv (round64 (3 / 2000)) 1000))
       = 1770887431076117 / 147573952589676412928"
    "fadd (round64 (fmul (float_of_int 3) (fdiv (round64 (1 / 500)) 1000)))
          (fmul (float_of_int 7) (fdiv (round64 (1 / 500)) 1000))
       = 368934881474191 / 18446744073709551616"
    by (simp_all add: float_eval)
  have run: "retrieve_sums_by_model sql_sum_real (snd (insert_all []
      [\<lparr>call_time = 1, call_model = Some ''gpt-3.5-turbo'', call_n_in = 1, call_n_out = 3\<rparr>,
       \<lparr>call_time = 2, call_model = Some ''gpt-3.5-turbo'', call_n_in = 7, call_n_out = 7\<rparr>]))
     = Inr [(''gpt-3.5-turbo'',
             \<lparr>earliest_timestamp = 1, total_n_input_tokens = 8, total_n_output_tokens = 10,
              total_cost_input_tokens = 1770887431076117 / 147573952589676412928,
              total_cost_output_tokens = 368934881474191 / 18446744073709551616\<rparr>)]"
    by (simp add: insert_data_def token_price_def PRICE_PER_THOUSAND_TOKENS_def int64_def
          insert_or_replace_def retrieve_sums_by_model_def aggregate_def
          sql_sum_real_def fadd_zero costs)
  have exact: "(368934881474191 / 18446744073709551616 :: real) \<noteq> 10 * 0.002 / 1000"
    by simp
  have float: "368934881474191 / 18446744073709551616
        \<noteq> fdiv (fmul (float_of_int 10) (round64 0.002)) 1000"
    by (simp add: float_eval)
  from run exact float show ?thesis by blast
qed

text \<open>
  Claim C6, as the code has it. For a model that has no entry in the price map,
  \<^verbatim>\<open>insert_data\<close> raises \<^verbatim>\<open>KeyError\<close>; no cost is computed and the table is left as it was.
\<close>

theorem insert_data_unpriced_model_raises:
  "map_of token_price (Some m) = None \<Longrightarrow>
     insert_data db utcnow (Some m) n_in n_out = (Inl KeyError, db)"
  by (simp add: insert_data_def)

theorem insert_data_unpriced_model_raises_witness:
  "map_of token_price (Some ''gpt-4-32k'') = None
   \<and> insert_data
        [\<lparr>timestamp = 1, model = ''gpt-4'', n_input_tokens = 1000, n_output_tokens = 500,
          cost_input_tokens = 0.03, cost_output_tokens = 0.03\<rparr>]
        2 (Some ''gpt-4-32k'') 10 20
      = (Inl KeyError,
         [\<lparr>timestamp = 1, model = ''gpt-4'', n_input_tokens = 1000, n_output_tokens = 500,
           cost_input_tokens = 0.03, cost_output_tokens = 0.03\<rparr>])"
proof -
  have h: "map_of token_price (Some ''gpt-4-32k'') = None"
    by (simp add: token_price_def PRICE_PER_THOUSAND_TOKENS_def)
  from insert_data_unpriced_model_raises [OF h] h show ?thesis by blast
qed

text \<open>
  The claim as the specification states it (the row of a model without a price is stored
  with zero costs) fails: the call for \<^verbatim>\<open>"gpt-4-32k"\<close> on the empty table raises and the
  table stays empty.
\<close>

theorem insert_data_unpriced_model_counterexample:
  "insert_data [] 1 (Some ''gpt-4-32k'') 10 20 = (Inl KeyError, [])
   \<and> insert_data [] 1 (Some ''gpt-4-32k'') 10 20 \<noteq>
       (Inr (), [\<lparr>timestamp = 1, model = ''gpt-4-32k'', n_input_tokens = 10,
                  n_output_tokens = 20, cost_input_tokens = 0, cost_output_tokens = 0\<rparr>])"
  by (simp add: insert_data_def token_price_def PRICE_PER_THOUSAND_TOKENS_def)





section \<open>Properties of the sentence chunker and of the reply stream\<close>









lemma accumulate_sentence_code:
  "chunk_type c = ''code'' \<Longrightarrow> accumulate_sentence rot s (c\<lparr>content := x\<rparr>) = ([], s)"
  by (simp add: accumulate_sentence_def)

lemma accumulate_sentence_code':
  "chunk_type c = ''code'' \<Longrightarrow> accumulate_sentence rot s c = ([], s)"
  by (simp add: accumulate_sentence_def)

lemma accumulate_sentence_puts:
  "fst (accumulate_sentence rot s c) = [] \<or>
   (\<exists>t. fst (accumulate_sentence rot s c) = [TtsPut (Some t)])"
  by (simp add: accumulate_sentence_def Let_def)

lemma answer_loop_Cons:
  "answer_loop rot s ((f, c) # chunks) =
     (if f then ([], Inl RuntimeError)
      else (Yield c # fst (accumulate_sentence rot s c)
              @ fst (answer_loop rot (snd (accumulate_sentence rot s c)) chunks),
            snd (answer_loop rot (snd (accumulate_sentence rot s c)) chunks)))"
  by (simp add: case_prod_unfold)

lemma consume_chunks_Yield:
  "consume_chunks msg i (Yield c # es) =
     (if chunk_type c \<noteq> ''code''
      then (Yield c # fst (consume_chunks msg i es), snd (consume_chunks msg i es))
      else (Yield c # (if \<not> i then [TtsPut (Some msg)] else [])
              @ Print (content c) # fst (consume_chunks msg True es),
            snd (consume_chunks msg True es)))"
  by (simp add: case_prod_unfold)

lemma consume_chunks_TtsPut:
  "consume_chunks msg i (TtsPut x # es) =
     (TtsPut x # fst (consume_chunks msg i es), snd (consume_chunks msg i es))"
  by (simp add: case_prod_unfold)

lemma tts_puts_append: "tts_puts (xs @ ys) = tts_puts xs @ tts_puts ys"
  by (induction xs rule: tts_puts.induct) simp_all

lemma answer_loop_erase:
  "tts_puts (fst (answer_loop rot s
       (map (\<lambda>(f, c). (f, if chunk_type c = ''code'' then c\<lparr>content := g c\<rparr> else c)) chunks)))
     = tts_puts (fst (answer_loop rot s chunks))
   \<and> snd (answer_loop rot s
       (map (\<lambda>(f, c). (f, if chunk_type c = ''code'' then c\<lparr>content := g c\<rparr> else c)) chunks))
     = snd (answer_loop rot s chunks)"
proof (induction chunks arbitrary: s)
  case Nil
  show ?case by simp
next
  case (Cons fc chunks)
  obtain f c where fc: "fc = (f, c)" by (cases fc)
  show ?case
  proof (cases "chunk_type c = ''code''")
    case True
    with Cons.IH [of s] fc show ?thesis
      by (simp add: answer_loop_Cons accumulate_sentence_code accumulate_sentence_code'
            del: answer_loop.simps)
  next
    case False
    with Cons.IH [of "snd (accumulate_sentence rot s c)"] fc show ?thesis
      by (simp add: answer_loop_Cons tts_puts_append del: answer_loop.simps)
  qed
qed

lemma consume_loop_erase:
  "tts_puts (fst (consume_chunks msg i (fst (answer_loop rot s
       (map (\<lambda>(f, c). (f, if chunk_type c = ''code'' then c\<lparr>content := g c\<rparr> else c)) chunks)))))
     = tts_puts (fst (consume_chunks msg i (fst (answer_loop rot s chunks))))
   \<and> snd (consume_chunks msg i (fst (answer_loop rot s
       (map (\<lambda>(f, c). (f, if chunk_type c = ''code'' then c\<lparr>content := g c\<rparr> else c)) chunks))))
     = snd (consume_chunks msg i (fst (answer_loop rot s chunks)))"
proof (induction chunks arbitrary: s i)
  case Nil
  show ?case by simp
next
  case (Cons fc chunks)
  obtain f c where fc: "fc = (f, c)" by (cases fc)
  show ?case
  proof (cases "chunk_type c = ''code''")
    case True
    with Cons.IH [of True s] fc show ?thesis
      by (simp add: answer_loop_Cons consume_chunks_Yield accumulate_sentence_code
            accumulate_sentence_code' tts_puts_append
            del: answer_loop.simps consume_chunks.simps)
  next
    case False
    from accumulate_sentence_puts [of rot s c]
    show ?thesis
    proof
      assume "fst (accumulate_sentence rot s c) = []"
      with Cons.IH [of i "snd (accumulate_sentence rot s c)"] fc False show ?thesis
        by (simp add: answer_loop_Cons consume_chunks_Yield
              del: answer_loop.simps consume_chunks.simps)
    next
      assume "\<exists>t. fst (accumulate_sentence rot s c) = [TtsPut (Some t)]"
      then obtain t where "fst (accumulate_sentence rot s c) = [TtsPut (Some t)]" ..
      with Cons.IH [of i "snd (accumulate_sentence rot s c)"] fc False show ?thesis
        by (simp add: answer_loop_Cons consume_chunks_Yield consume_chunks_TtsPut
              del: answer_loop.simps consume_chunks.simps)
    qed
  qed
qed

lemma accumulate_sentence_spoken:
  "concat (map (\<lambda>item. case item of None \<Rightarrow> [] | Some t \<Rightarrow> t)
       (tts_puts (fst (accumulate_sentence False s c))))
     @ snd (accumulate_sentence False s c)
   = (if chunk_type c = ''text'' then s @ content c else s)"
  by (simp add: accumulate_sentence_def Let_def)

lemma answer_loop_spoken:
  "concat (map (\<lambda>item. case item of None \<Rightarrow> [] | Some t \<Rightarrow> t)
       (tts_puts (fst (answer_loop False s (map (Pair False) cs)))))
     = s @ concat (map content (filter (\<lambda>c. chunk_type c = ''text'') cs))"
proof (induction cs arbitrary: s)
  case Nil
  show ?case by simp
next
  case (Cons c cs)
  from Cons.IH [of "snd (accumulate_sentence False s c)"]
    accumulate_sentence_spoken [of s c]
  show ?case
    by (simp add: answer_loop_Cons tts_puts_append del: answer_loop.simps)
qed

lemma answer_loop_sentinel:
  "length (filter (\<lambda>item. item = None) (tts_puts (fst (answer_loop rot s chunks))))
     = (if list_ex fst chunks then 0 else 1)
   \<and> snd (answer_loop rot s chunks) = (if list_ex fst chunks then Inl RuntimeError else Inr ())"
proof (induction chunks arbitrary: s)
  case Nil
  show ?case by simp
next
  case (Cons fc chunks)
  obtain f c where fc: "fc = (f, c)" by (cases fc)
  from accumulate_sentence_puts [of rot s c]
  have p: "filter (\<lambda>item. item = None) (tts_puts (fst (accumulate_sentence rot s c))) = []"
    by auto
  from Cons.IH [of "snd (accumulate_sentence rot s c)"] fc p show ?case
    by (auto simp add: answer_loop_Cons tts_puts_append simp del: answer_loop.simps
          split: if_splits)
qed

lemma handle_tts_queue_sentinel:
  "AudiosPut None \<in> set (handle_tts_queue convert items) \<or>
   PlayPut None \<in> set (handle_tts_queue convert items) \<Longrightarrow> None \<in> snd ` set items"
proof (induction items)
  case Nil
  then show ?case by simp
next
  case (Cons x items)
  obtain f item where x: "x = (f, item)" by (cases x)
  show ?case
  proof (cases item)
    case None
    with x show ?thesis by simp
  next
    case (Some t)
    have "AudiosPut None \<notin> set (handle_tts_item convert f (Some t))"
      and "PlayPut None \<notin> set (handle_tts_item convert f (Some t))"
      by (simp_all add: handle_tts_item_def Let_def split: sum.splits)
    with Cons x Some show ?thesis by auto
  qed
qed




text \<open>
  Claim C2. The content of a chunk of code never reaches the text-to-speech queue: the
  items put on the queue by \<^verbatim>\<open>answer_question\<close>, and by the whole turn of \<^verbatim>\<open>start\<close>, stay
  the same when the content of every chunk of code is replaced by anything else; and when
  the reply is spoken to its end, the sentences put on the queue are, joined, the contents
  of the chunks of text.
\<close>

theorem code_chunks_never_spoken:
  "tts_puts (fst (answer_question rot
       (map (\<lambda>(f, c). (f, if chunk_type c = ''code'' then c\<lparr>content := g c\<rparr> else c)) chunks)))
     = tts_puts (fst (answer_question rot chunks))
   \<and> tts_puts (fst (answer_in_start msg rot
       (map (\<lambda>(f, c). (f, if chunk_type c = ''code'' then c\<lparr>content := g c\<rparr> else c)) chunks)))
     = tts_puts (fst (answer_in_start msg rot chunks))
   \<and> concat (map (\<lambda>item. case item of None \<Rightarrow> [] | Some t \<Rightarrow> t)
       (tts_puts (fst (answer_question False (map (Pair False) cs)))))
     = concat (map content (filter (\<lambda>c. chunk_type c = ''text'') cs))"
proof (intro conjI)
  show "tts_puts (fst (answer_question rot
       (map (\<lambda>(f, c). (f, if chunk_type c = ''code'' then c\<lparr>content := g c\<rparr> else c)) chunks)))
     = tts_puts (fst (answer_question rot chunks))"
    using answer_loop_erase [of rot "[]" g chunks]
    by (simp add: answer_question_def case_prod_unfold)
next
  show "tts_puts (fst (answer_in_start msg rot
       (map (\<lambda>(f, c). (f, if chunk_type c = ''code'' then c\<lparr>content := g c\<rparr> else c)) chunks)))
     = tts_puts (fst (answer_in_start msg rot chunks))"
    using consume_loop_erase [of msg False rot "[]" g chunks]
      answer_loop_erase [of rot "[]" g chunks]
    by (simp add: answer_in_start_def answer_question_def case_prod_unfold tts_puts_append)
next
  show "concat (map (\<lambda>item. case item of None \<Rightarrow> [] | Some t \<Rightarrow> t)
       (tts_puts (fst (answer_question False (map (Pair False) cs)))))
     = concat (map content (filter (\<lambda>c. chunk_type c = ''text'') cs))"
    using answer_loop_spoken [of "[]" cs]
    by (simp add: answer_question_def case_prod_unfold)
qed

text \<open>
  Claim C10, on the code. \<^verbatim>\<open>answer_question\<close> puts the end-of-reply \<^verbatim>\<open>None\<close> on the
  text-to-speech queue exactly once when no chunk arrives with \<^verbatim>\<open>interrupt_reply\<close> or
  \<^verbatim>\<open>exit_chat\<close> set, and then its body runs to the end. When a chunk arrives with a flag
  set it has put no \<^verbatim>\<open>None\<close>, so that the text-to-speech worker, whatever it makes of the
  items of that reply, forwards no \<^verbatim>\<open>None\<close> to the audio history queue or to the playback
  queue; but the \<^verbatim>\<open>raise StopIteration\<close> that it executes then does not end the generator
  the way a \<^verbatim>\<open>return\<close> would: the consumer gets a \<^verbatim>\<open>RuntimeError\<close>.
\<close>

theorem end_of_reply_sentinel:
  "length (filter (\<lambda>item. item = None) (tts_puts (fst (answer_question rot chunks))))
     = (if list_ex fst chunks then 0 else 1)
   \<and> snd (answer_question rot chunks)
     = (if list_ex fst chunks then Inl RuntimeError else Inr ())
   \<and> (list_ex fst chunks \<longrightarrow>
        AudiosPut None \<notin> set (handle_tts_queue convert
                                 (zip flags (tts_puts (fst (answer_question rot chunks)))))
        \<and> PlayPut None \<notin> set (handle_tts_queue convert
                                 (zip flags (tts_puts (fst (answer_question rot chunks))))))"
proof -
  have count: "length (filter (\<lambda>item. item = None) (tts_puts (fst (answer_question rot chunks))))
     = (if list_ex fst chunks then 0 else 1)"
    and outcome: "snd (answer_question rot chunks)
     = (if list_ex fst chunks then Inl RuntimeError else Inr ())"
    using answer_loop_sentinel [of rot "[]" chunks]
    by (simp_all add: answer_question_def case_prod_unfold)
  have "None \<notin> snd ` set (zip flags (tts_puts (fst (answer_question rot chunks))))"
    if "list_ex fst chunks"
  proof
    assume "None \<in> snd ` set (zip flags (tts_puts (fst (answer_question rot chunks))))"
    then have "None \<in> set (tts_puts (fst (answer_question rot chunks)))"
      by (auto dest: set_zip_rightD)
    then have "filter (\<lambda>item. item = None) (tts_puts (fst (answer_question rot chunks))) \<noteq> []"
      by (auto simp: filter_empty_conv)
    with count that show False by simp
  qed
  with handle_tts_queue_sentinel [of convert
        "zip flags (tts_puts (fst (answer_question rot chunks)))"]
  have "list_ex fst chunks \<longrightarrow>
        AudiosPut None \<notin> set (handle_tts_queue convert
                                 (zip flags (tts_puts (fst (answer_question rot chunks)))))
        \<and> PlayPut None \<notin> set (handle_tts_queue convert
                                 (zip flags (tts_puts (fst (answer_question rot chunks)))))"
    by blast
  with count outcome show ?thesis by blast
qed

theorem end_of_reply_sentinel_witness:
  "list_ex fst [(False, \<lparr>chunk_type = ''text'', content = ''Hello.''\<rparr>),
                (True, \<lparr>chunk_type = ''text'', content = ''More.''\<rparr>)]
   \<and> tts_puts (fst (answer_question False
        [(False, \<lparr>chunk_type = ''text'', content = ''Hello.''\<rparr>),
         (True, \<lparr>chunk_type = ''text'', content = ''More.''\<rparr>)])) = [Some ''Hello.'']
   \<and> snd (answer_question False
        [(False, \<lparr>chunk_type = ''text'', content = ''Hello.''\<rparr>),
         (True, \<lparr>chunk_type = ''text'', content = ''More.''\<rparr>)]) = Inl RuntimeError
   \<and> PlayPut None \<notin> set (handle_tts_queue (\<lambda>t. Inr \<lparr>frame_count = 6400, frame_rate = 16000\<rparr>)
        (zip [False] (tts_puts (fst (answer_question False
           [(False, \<lparr>chunk_type = ''text'', content = ''Hello.''\<rparr>),
            (True, \<lparr>chunk_type = ''text'', content = ''More.''\<rparr>)])))))"
proof -
  let ?chunks = "[(False, \<lparr>chunk_type = ''text'', content = ''Hello.''\<rparr>),
                  (True, \<lparr>chunk_type = ''text'', content = ''More.''\<rparr>)]"
  have h: "list_ex fst ?chunks" by simp
  have p: "tts_puts (fst (answer_question False ?chunks)) = [Some ''Hello.'']"
    by (simp add: answer_question_def accumulate_sentence_def py_strip_def py_isspace_def
          py_isdigit_def endswith_def)
  from end_of_reply_sentinel [of False ?chunks "\<lambda>t. Inr \<lparr>frame_count = 6400, frame_rate = 16000\<rparr>" "[False]"] h
  have "snd (answer_question False ?chunks) = Inl RuntimeError"
    and "PlayPut None \<notin> set (handle_tts_queue (\<lambda>t. Inr \<lparr>frame_count = 6400, frame_rate = 16000\<rparr>)
            (zip [False] (tts_puts (fst (answer_question False ?chunks)))))"
    by simp_all
  with h p show ?thesis by blast
qed

section \<open>Properties of the workers\<close>

lemma wait_while_busy_result:
  "sounds (wait_while_busy pb) = sounds pb
   \<and> interrupt_checks (wait_while_busy pb) = interrupt_checks pb
   \<and> clock pb \<le> clock (wait_while_busy pb)
   \<and> \<not> mixer_get_busy (wait_while_busy pb)"
proof (induction pb rule: wait_while_busy.induct)
  case (1 pb)
  show ?case
  proof (cases "mixer_get_busy pb")
    case True
    then have "wait_while_busy pb = wait_while_busy (pb\<lparr>clock := clock pb + 100\<rparr>)"
      by (subst wait_while_busy.simps) simp
    with 1 [OF True] show ?thesis by simp
  next
    case False
    then have "wait_while_busy pb = pb"
      by (subst wait_while_busy.simps) simp
    with False show ?thesis by simp
  qed
qed

lemma speak_result:
  "sounds (speak pb tts listened) = sounds pb @ [(clock pb, clock pb + duration_ms (speech tts))]
   \<and> clock pb + duration_ms (speech tts) \<le> clock (speak pb tts listened)"
proof -
  obtain listen_ms user_audio where l: "listened = (listen_ms, user_audio)"
    by (cases listened)
  let ?queued = "pb\<lparr>sounds := sounds pb @ [(clock pb, clock pb + duration_ms (speech tts))],
                    clock := clock pb + listen_ms,
                    interrupt_checks := interrupt_checks pb @ [(tts_text tts, user_audio)]\<rparr>"
  have s: "speak pb tts listened = wait_while_busy ?queued"
    by (simp add: speak_def l Let_def)
  from wait_while_busy_result [of ?queued]
  have snd: "sounds (wait_while_busy ?queued) = sounds ?queued"
    and clk: "clock ?queued \<le> clock (wait_while_busy ?queued)"
    and idle: "\<not> mixer_get_busy (wait_while_busy ?queued)"
    by simp_all
  from idle snd have "\<not> (clock pb \<le> clock (wait_while_busy ?queued)
        \<and> clock (wait_while_busy ?queued) < clock pb + duration_ms (speech tts))"
    by (simp add: mixer_get_busy_def heard_at_def)
  moreover from clk have "clock pb \<le> clock (wait_while_busy ?queued)" by simp
  ultimately have "clock pb + duration_ms (speech tts) \<le> clock (wait_while_busy ?queued)"
    by simp
  with s snd show ?thesis by simp
qed

lemma sound_survives_stop:
  assumes "\<not> interrupt_reply (clock pb)"
  shows "(clock pb, clock pb + duration_ms (speech tts))
     \<in> set (sounds (start_after_join interrupt_reply'
              (handle_speech_item interrupt_reply pb (Some tts) listened)))"
proof -
  let ?pb' = "speak pb tts listened"
  from assms have h: "handle_speech_item interrupt_reply pb (Some tts) listened = ?pb'"
    by (simp add: handle_speech_item_def)
  from speak_result [of pb tts listened]
  have mem: "(clock pb, clock pb + duration_ms (speech tts)) \<in> set (sounds ?pb')"
    and le: "clock pb + duration_ms (speech tts) \<le> clock ?pb'"
    by simp_all
  from le have "(\<lambda>(a, b). (a, min b (clock ?pb'))) (clock pb, clock pb + duration_ms (speech tts))
      = (clock pb, clock pb + duration_ms (speech tts))"
    by simp
  with mem have "(clock pb, clock pb + duration_ms (speech tts))
      \<in> (\<lambda>(a, b). (a, min b (clock ?pb'))) ` set (sounds ?pb')"
    by (metis (no_types, lifting) image_eqI)
  with mem show ?thesis
    unfolding h by (simp add: start_after_join_def mixer_stop_def)
qed

text \<open>
  Claim C5, as the code has it. A text that the text-to-speech worker takes from its queue
  while it sees \<^verbatim>\<open>interrupt_reply\<close> set is neither converted nor put on the playback queue
  (the end-of-reply \<^verbatim>\<open>None\<close> is still forwarded), and an item that the playback worker
  takes from its queue while it sees the flag set is not played. An item whose playback
  has started is not stopped by the flag: \<^verbatim>\<open>speak\<close> returns only when the mixer is no
  longer busy, and the \<^verbatim>\<open>mixer.stop()\<close> of \<^verbatim>\<open>start\<close>, which comes after the queues have been
  joined, finds the sound at its end, so the sound is heard for its whole length.
\<close>

theorem interrupt_guards_of_the_workers:
  "handle_tts_item convert True (Some unstripped) = []
   \<and> handle_tts_item convert True None = [AudiosPut None, PlayPut None]
   \<and> (interrupt_reply (clock pb) \<longrightarrow>
        handle_speech_item interrupt_reply pb item listened = pb)
   \<and> (\<not> interrupt_reply (clock pb) \<longrightarrow>
        (clock pb, clock pb + duration_ms (speech tts))
          \<in> set (sounds (start_after_join interrupt_reply
                   (handle_speech_item interrupt_reply pb (Some tts) listened))))"
proof (intro conjI impI)
  show "handle_tts_item convert True (Some unstripped) = []"
    by (simp add: handle_tts_item_def)
  show "handle_tts_item convert True None = [AudiosPut None, PlayPut None]"
    by (simp add: handle_tts_item_def)
  show "handle_speech_item interrupt_reply pb item listened = pb"
    if "interrupt_reply (clock pb)"
    using that by (simp add: handle_speech_item_def split: option.splits)
  show "(clock pb, clock pb + duration_ms (speech tts))
          \<in> set (sounds (start_after_join interrupt_reply
                   (handle_speech_item interrupt_reply pb (Some tts) listened)))"
    if "\<not> interrupt_reply (clock pb)"
    using that by (rule sound_survives_stop)
qed

theorem interrupt_guards_of_the_workers_witness:
  "(\<lambda>t. 1 \<le> t) (clock \<lparr>clock = 5, sounds = [], interrupt_checks = []\<rparr>)
   \<and> handle_speech_item (\<lambda>t. 1 \<le> t) \<lparr>clock = 5, sounds = [], interrupt_checks = []\<rparr>
        (Some \<lparr>tts_text = ''Let me explain in detail.'', speech = \<lparr>frame_count = 48000, frame_rate = 16000\<rparr>\<rparr>)
        (3000, \<lparr>frame_count = 48000, frame_rate = 16000\<rparr>)
      = \<lparr>clock = 5, sounds = [], interrupt_checks = []\<rparr>
   \<and> \<not> (\<lambda>t. 1 \<le> t) (clock \<lparr>clock = 0, sounds = [], interrupt_checks = []\<rparr>)
   \<and> (0, 3000) \<in> set (sounds (start_after_join (\<lambda>t. 1 \<le> t)
        (handle_speech_item (\<lambda>t. 1 \<le> t) \<lparr>clock = 0, sounds = [], interrupt_checks = []\<rparr>
           (Some \<lparr>tts_text = ''Let me explain in detail.'', speech = \<lparr>frame_count = 48000, frame_rate = 16000\<rparr>\<rparr>)
           (2800, \<lparr>frame_count = 44800, frame_rate = 16000\<rparr>))))"
proof -
  have a: "(\<lambda>t::nat. 1 \<le> t) (clock \<lparr>clock = 5, sounds = [], interrupt_checks = []\<rparr>)" by simp
  have b: "\<not> (\<lambda>t::nat. 1 \<le> t) (clock \<lparr>clock = 0, sounds = [], interrupt_checks = []\<rparr>)" by simp
  from interrupt_guards_of_the_workers
    [of _ _ "\<lambda>t. 1 \<le> t" "\<lparr>clock = 5, sounds = [], interrupt_checks = []\<rparr>"
        "Some \<lparr>tts_text = ''Let me explain in detail.'', speech = \<lparr>frame_count = 48000, frame_rate = 16000\<rparr>\<rparr>"
        "(3000, \<lparr>frame_count = 48000, frame_rate = 16000\<rparr>)"] a
  have c: "handle_speech_item (\<lambda>t. 1 \<le> t) \<lparr>clock = 5, sounds = [], interrupt_checks = []\<rparr>
        (Some \<lparr>tts_text = ''Let me explain in detail.'', speech = \<lparr>frame_count = 48000, frame_rate = 16000\<rparr>\<rparr>)
        (3000, \<lparr>frame_count = 48000, frame_rate = 16000\<rparr>)
      = \<lparr>clock = 5, sounds = [], interrupt_checks = []\<rparr>"
    by blast
  from interrupt_guards_of_the_workers
    [of _ _ "\<lambda>t. 1 \<le> t" "\<lparr>clock = 0, sounds = [], interrupt_checks = []\<rparr>" _
        "(2800, \<lparr>frame_count = 44800, frame_rate = 16000\<rparr>)"
        "\<lparr>tts_text = ''Let me explain in detail.'', speech = \<lparr>frame_count = 48000, frame_rate = 16000\<rparr>\<rparr>"] b
  have d: "(0, 3000) \<in> set (sounds (start_after_join (\<lambda>t. 1 \<le> t)
        (handle_speech_item (\<lambda>t. 1 \<le> t) \<lparr>clock = 0, sounds = [], interrupt_checks = []\<rparr>
           (Some \<lparr>tts_text = ''Let me explain in detail.'', speech = \<lparr>frame_count = 48000, frame_rate = 16000\<rparr>\<rparr>)
           (2800, \<lparr>frame_count = 44800, frame_rate = 16000\<rparr>))))"
    by (simp add: duration_ms_def)
  from a b c d show ?thesis by blast
qed

text \<open>
  The claim as the specification states it (an item that is playing is stopped within one
  polling interval of the flag being set) fails. The flag is clear at time 0, when the
  playback worker takes an item of 3000 ms, and set from time 1 on; \<^verbatim>\<open>listen\<close> returns after
  2800 ms. The worker leaves \<^verbatim>\<open>speak\<close> at time 3000, and after the \<^verbatim>\<open>mixer.stop()\<close> of
  \<^verbatim>\<open>start\<close> the sound still counts as heard at the times 101 and 2999.
\<close>

theorem playing_item_not_stopped_counterexample:
  "handle_speech_item (\<lambda>t. 1 \<le> t) \<lparr>clock = 0, sounds = [], interrupt_checks = []\<rparr>
      (Some \<lparr>tts_text = ''Let me explain in detail.'', speech = \<lparr>frame_count = 48000, frame_rate = 16000\<rparr>\<rparr>)
      (2800, \<lparr>frame_count = 44800, frame_rate = 16000\<rparr>)
    = \<lparr>clock = 3000, sounds = [(0, 3000)],
       interrupt_checks = [(''Let me explain in detail.'', \<lparr>frame_count = 44800, frame_rate = 16000\<rparr>)]\<rparr>
   \<and> heard_at (start_after_join (\<lambda>t. 1 \<le> t)
        (handle_speech_item (\<lambda>t. 1 \<le> t) \<lparr>clock = 0, sounds = [], interrupt_checks = []\<rparr>
           (Some \<lparr>tts_text = ''Let me explain in detail.'', speech = \<lparr>frame_count = 48000, frame_rate = 16000\<rparr>\<rparr>)
           (2800, \<lparr>frame_count = 44800, frame_rate = 16000\<rparr>))) 101
   \<and> heard_at (start_after_join (\<lambda>t. 1 \<le> t)
        (handle_speech_item (\<lambda>t. 1 \<le> t) \<lparr>clock = 0, sounds = [], interrupt_checks = []\<rparr>
           (Some \<lparr>tts_text = ''Let me explain in detail.'', speech = \<lparr>frame_count = 48000, frame_rate = 16000\<rparr>\<rparr>)
           (2800, \<lparr>frame_count = 44800, frame_rate = 16000\<rparr>))) 2999"
proof -
  have run: "handle_speech_item (\<lambda>t. 1 \<le> t) \<lparr>clock = 0, sounds = [], interrupt_checks = []\<rparr>
      (Some \<lparr>tts_text = ''Let me explain in detail.'', speech = \<lparr>frame_count = 48000, frame_rate = 16000\<rparr>\<rparr>)
      (2800, \<lparr>frame_count = 44800, frame_rate = 16000\<rparr>)
    = \<lparr>clock = 3000, sounds = [(0, 3000)],
       interrupt_checks = [(''Let me explain in detail.'', \<lparr>frame_count = 44800, frame_rate = 16000\<rparr>)]\<rparr>"
    apply (simp add: handle_speech_item_def speak_def duration_ms_def Let_def)
    apply (subst wait_while_busy.simps, simp add: mixer_get_busy_def heard_at_def)
    apply (subst wait_while_busy.simps, simp add: mixer_get_busy_def heard_at_def)
    apply (subst wait_while_busy.simps, simp add: mixer_get_busy_def heard_at_def)
    done
  show ?thesis
    unfolding run by (simp add: start_after_join_def mixer_stop_def heard_at_def)
qed

lemma handle_audios_merged:
  "handle_update_audio_history ratecv self h (map (\<lambda>a. (Some a, io a)) audios) =
     Returns (h\<lparr>merged_audio := foldl (audio_add ratecv) (merged_audio h) audios\<rparr>)"
  by (induction audios arbitrary: h) (simp_all add: handle_audio_item_def)

lemma handle_update_audio_history_append:
  "handle_update_audio_history ratecv self h (xs @ ys) =
     (case handle_update_audio_history ratecv self h xs of
        Returns h' \<Rightarrow> handle_update_audio_history ratecv self h' ys
      | Blocks h' \<Rightarrow> Blocks h')"
  by (induction xs arbitrary: h) (auto split: worker_step.splits)

lemma handle_reply:
  "handle_update_audio_history ratecv self h
       (map (\<lambda>a. (Some a, io a)) audios @ [(None, sentinel_io)])
     = handle_audio_item ratecv self
         (h\<lparr>merged_audio := foldl (audio_add ratecv) (merged_audio h) audios\<rparr>)
         None sentinel_io"
  by (simp add: handle_update_audio_history_append handle_audios_merged
        split: worker_step.splits)

lemma example_durations:
  "duration_seconds \<lparr>frame_count = 12000, frame_rate = 16000\<rparr> = 3 / 4"
  "duration_seconds \<lparr>frame_count = 16000, frame_rate = 16000\<rparr> = 1"
  "duration_seconds \<lparr>frame_count = 2000, frame_rate = 16000\<rparr> = 1 / 8"
  "duration_seconds \<lparr>frame_count = 500, frame_rate = 16000\<rparr> = 1 / 32"
  "duration_seconds \<lparr>frame_count = 8000, frame_rate = 16000\<rparr> = 1 / 2"
  by (simp_all add: duration_seconds_def float_eval)

text \<open>
  Claim C4, as the code has it. A reply is a sequence of audios followed by \<^verbatim>\<open>None\<close>; the
  merged audio is the sum of the audios, and its duration is the number of its frames
  divided by its frame rate, as a \<^verbatim>\<open>float\<close>. When the update of the history and the export
  of the file do not fail, the worker, on the \<^verbatim>\<open>None\<close>, sets the audio file of the last
  exchange and writes one MP3 file, holding the merged audio, exactly when the merged
  audio lasts at least \<^verbatim>\<open>min_speech_duration_seconds\<close>; below that it writes no file and
  leaves the history alone. It then puts the path (\<^verbatim>\<open>None\<close> below the threshold) on the
  queue \<^verbatim>\<open>last_answer_full_audio_fpath\<close>, which holds one item. When the queue is empty,
  or a consumer takes the item in it, the path is published and the merge buffer is empty
  afterwards. When the queue stays full the worker waits in \<^verbatim>\<open>put\<close>: nothing is
  published, and the merge buffer has been emptied only below the threshold.
\<close>

theorem audio_history_threshold:
  assumes "\<not> update_raises sentinel_io" and "\<not> export_raises sentinel_io"
    and "merged = foldl (audio_add ratecv) (merged_audio h) audios"
    and "step = handle_update_audio_history ratecv self h
                  (map (\<lambda>a. (Some a, io a)) audios @ [(None, sentinel_io)])"
  shows
    "mp3_files (worker_state step)
       = (if min_speech_duration_seconds self \<le> duration_seconds merged
          then mp3_files h @ [(audio_file_path sentinel_io, merged)]
          else mp3_files h)
     \<and> assistant_reply_audio_file (worker_state step)
       = (if min_speech_duration_seconds self \<le> duration_seconds merged
          then Some (audio_file_path sentinel_io)
          else assistant_reply_audio_file h)
     \<and> (last_answer_full_audio_fpath h = [] \<or> consumer_gets sentinel_io \<longrightarrow>
          step = Returns (worker_state step)
          \<and> last_answer_full_audio_fpath (worker_state step)
            = (if last_answer_full_audio_fpath h = [] then []
               else tl (last_answer_full_audio_fpath h))
              @ [if min_speech_duration_seconds self \<le> duration_seconds merged
                 then Some (audio_file_path sentinel_io) else None]
          \<and> merged_audio (worker_state step) = audio_empty)
     \<and> (last_answer_full_audio_fpath h \<noteq> [] \<and> \<not> consumer_gets sentinel_io \<longrightarrow>
          step = Blocks (worker_state step)
          \<and> last_answer_full_audio_fpath (worker_state step) = last_answer_full_audio_fpath h
          \<and> merged_audio (worker_state step)
            = (if min_speech_duration_seconds self \<le> duration_seconds merged
               then merged else audio_empty))"
proof -
  have step: "step = handle_audio_item ratecv self (h\<lparr>merged_audio := merged\<rparr>) None sentinel_io"
    unfolding assms(3,4) by (rule handle_reply)
  show ?thesis
  proof (cases "last_answer_full_audio_fpath h = []")
    case True
    with assms(1,2) show ?thesis
      unfolding step by (simp add: handle_audio_item_def queue_put_def Let_def not_less)
  next
    case False
    then have len: "\<not> length (last_answer_full_audio_fpath h) < 1" by (simp add: not_less Suc_le_eq)
    show ?thesis
    proof (cases "consumer_gets sentinel_io")
      case True
      with assms(1,2) False len show ?thesis
        unfolding step by (simp add: handle_audio_item_def queue_put_def Let_def not_less)
    next
      case c: False
      with assms(1,2) False len show ?thesis
        unfolding step by (simp add: handle_audio_item_def queue_put_def Let_def not_less)
    qed
  qed
qed

theorem audio_history_threshold_witness:
  "\<not> update_raises \<lparr>audio_file_path = ''cache/audio_files/t1.mp3'', update_raises = False,
                      export_raises = False, consumer_gets = False\<rparr>
   \<and> handle_update_audio_history (\<lambda>n r r'. n * r' div r)
        \<lparr>min_speech_duration_seconds = 0.5, exit_expressions = []\<rparr>
        \<lparr>merged_audio = audio_empty, assistant_reply_audio_file = None, mp3_files = [],
         last_answer_full_audio_fpath = []\<rparr>
        [(Some \<lparr>frame_count = 4000, frame_rate = 16000\<rparr>,
          \<lparr>audio_file_path = ''cache/audio_files/t0.mp3'', update_raises = False,
           export_raises = False, consumer_gets = False\<rparr>),
         (Some \<lparr>frame_count = 8000, frame_rate = 16000\<rparr>,
          \<lparr>audio_file_path = ''cache/audio_files/t0.mp3'', update_raises = False,
           export_raises = False, consumer_gets = False\<rparr>),
         (None,
          \<lparr>audio_file_path = ''cache/audio_files/t1.mp3'', update_raises = False,
           export_raises = False, consumer_gets = False\<rparr>)]
      = Returns
         \<lparr>merged_audio = audio_empty,
          assistant_reply_audio_file = Some ''cache/audio_files/t1.mp3'',
          mp3_files = [(''cache/audio_files/t1.mp3'', \<lparr>frame_count = 12000, frame_rate = 16000\<rparr>)],
          last_answer_full_audio_fpath = [Some ''cache/audio_files/t1.mp3'']\<rparr>"
proof -
  let ?io0 = "\<lparr>audio_file_path = ''cache/audio_files/t0.mp3'', update_raises = False,
               export_raises = False, consumer_gets = False\<rparr>"
  let ?io1 = "\<lparr>audio_file_path = ''cache/audio_files/t1.mp3'', update_raises = False,
               export_raises = False, consumer_gets = False\<rparr>"
  let ?self = "\<lparr>min_speech_duration_seconds = 0.5, exit_expressions = []\<rparr>"
  let ?h = "\<lparr>merged_audio = audio_empty, assistant_reply_audio_file = None, mp3_files = [],
             last_answer_full_audio_fpath = []\<rparr>"
  let ?ratecv = "\<lambda>n r r'. n * r' div (r :: nat)"
  let ?audios = "[\<lparr>frame_count = 4000, frame_rate = 16000\<rparr>,
                  \<lparr>frame_count = 8000, frame_rate = 16000\<rparr>]"
  let ?step = "handle_update_audio_history ?ratecv ?self ?h
                 (map (\<lambda>a. (Some a, ?io0)) ?audios @ [(None, ?io1)])"
  have u: "\<not> update_raises ?io1" and e: "\<not> export_raises ?io1" by simp_all
  have m: "foldl (audio_add ?ratecv) (merged_audio ?h) ?audios
             = \<lparr>frame_count = 12000, frame_rate = 16000\<rparr>"
    by (simp add: audio_add_def set_frame_rate_def audio_empty_def)
  define s where "s = worker_state ?step"
  from audio_history_threshold
         [where ratecv = ?ratecv and h = ?h and audios = ?audios and self = ?self
            and io = "\<lambda>a. ?io0", OF u e refl refl]
  have r: "?step = Returns s"
    and f: "mp3_files s
           = [(''cache/audio_files/t1.mp3'', \<lparr>frame_count = 12000, frame_rate = 16000\<rparr>)]"
      "assistant_reply_audio_file s = Some ''cache/audio_files/t1.mp3''"
      "last_answer_full_audio_fpath s = [Some ''cache/audio_files/t1.mp3'']"
      "merged_audio s = audio_empty"
    unfolding m s_def by (simp_all add: example_durations)
  from f have "s = \<lparr>merged_audio = audio_empty,
          assistant_reply_audio_file = Some ''cache/audio_files/t1.mp3'',
          mp3_files = [(''cache/audio_files/t1.mp3'', \<lparr>frame_count = 12000, frame_rate = 16000\<rparr>)],
          last_answer_full_audio_fpath = [Some ''cache/audio_files/t1.mp3'']\<rparr>"
    by (simp add: audio_history.equality)
  with r u show ?thesis by simp
qed

text \<open>
  The claim as the specification states it (the path or \<^verbatim>\<open>None\<close> is published and the merge
  buffer is reset in both cases) fails when the path of the reply before is still in the
  queue, as it is in a chat run by \<^verbatim>\<open>VoiceChat.start\<close>, where nothing takes it. After a
  first reply of one second, a second reply of one second ends with the worker waiting in
  \<^verbatim>\<open>put\<close>: the file is written, its path is not published and the merge buffer still holds
  the audio. A second reply of an eighth of a second ends with the worker waiting too, and
  \<^verbatim>\<open>None\<close> is not published. The minimum is half a second.
\<close>

theorem audio_history_full_queue_counterexample:
  "handle_update_audio_history (\<lambda>n r r'. n * r' div r)
      \<lparr>min_speech_duration_seconds = 0.5, exit_expressions = []\<rparr>
      \<lparr>merged_audio = audio_empty, assistant_reply_audio_file = None, mp3_files = [],
       last_answer_full_audio_fpath = []\<rparr>
      [(Some \<lparr>frame_count = 16000, frame_rate = 16000\<rparr>,
        \<lparr>audio_file_path = ''t1.mp3'', update_raises = False, export_raises = False,
         consumer_gets = False\<rparr>),
       (None,
        \<lparr>audio_file_path = ''t1.mp3'', update_raises = False, export_raises = False,
         consumer_gets = False\<rparr>),
       (Some \<lparr>frame_count = 16000, frame_rate = 16000\<rparr>,
        \<lparr>audio_file_path = ''t2.mp3'', update_raises = False, export_raises = False,
         consumer_gets = False\<rparr>),
       (None,
        \<lparr>audio_file_path = ''t2.mp3'', update_raises = False, export_raises = False,
         consumer_gets = False\<rparr>)]
    = Blocks
       \<lparr>merged_audio = \<lparr>frame_count = 16000, frame_rate = 16000\<rparr>,
        assistant_reply_audio_file = Some ''t2.mp3'',
        mp3_files = [(''t1.mp3'', \<lparr>frame_count = 16000, frame_rate = 16000\<rparr>),
                     (''t2.mp3'', \<lparr>frame_count = 16000, frame_rate = 16000\<rparr>)],
        last_answer_full_audio_fpath = [Some ''t1.mp3'']\<rparr>
   \<and> handle_update_audio_history (\<lambda>n r r'. n * r' div r)
      \<lparr>min_speech_duration_seconds = 0.5, exit_expressions = []\<rparr>
      \<lparr>merged_audio = audio_empty, assistant_reply_audio_file = None, mp3_files = [],
       last_answer_full_audio_fpath = []\<rparr>
      [(Some \<lparr>frame_count = 16000, frame_rate = 16000\<rparr>,
        \<lparr>audio_file_path = ''t1.mp3'', update_raises = False, export_raises = False,
         consumer_gets = False\<rparr>),
       (None,
        \<lparr>audio_file_path = ''t1.mp3'', update_raises = False, export_raises = False,
         consumer_gets = False\<rparr>),
       (Some \<lparr>frame_count = 2000, frame_rate = 16000\<rparr>,
        \<lparr>audio_file_path = ''t2.mp3'', update_raises = False, export_raises = False,
         consumer_gets = False\<rparr>),
       (None,
        \<lparr>audio_file_path = ''t2.mp3'', update_raises = False, export_raises = False,
         consumer_gets = False\<rparr>)]
    = Blocks
       \<lparr>merged_audio = audio_empty,
        assistant_reply_audio_file = Some ''t1.mp3'',
        mp3_files = [(''t1.mp3'', \<lparr>frame_count = 16000, frame_rate = 16000\<rparr>)],
        last_answer_full_audio_fpath = [Some ''t1.mp3'']\<rparr>"
  by (simp add: handle_audio_item_def audio_add_def set_frame_rate_def audio_empty_def
        queue_put_def example_durations)

lemma round_half_even_nonneg: "0 \<le> q \<Longrightarrow> 0 \<le> round_half_even q"
  by (auto simp: round_half_even_def Let_def)

lemma round_half_even_le: "q < of_int m \<Longrightarrow> round_half_even q \<le> m"
proof -
  assume "q < of_int m"
  then have "\<lfloor>q\<rfloor> < m" by (simp add: floor_less_iff)
  then show ?thesis by (auto simp: round_half_even_def Let_def)
qed

lemma binade_upper:
  assumes "0 < a"
  shows "a < 2 powi (binade a + 1)"
proof (cases "1 \<le> a")
  case True
  then have pos: "0 < \<lfloor>a\<rfloor>" by simp
  from bitlen_bounds [OF pos] have "\<lfloor>a\<rfloor> + 1 \<le> 2 ^ nat (bitlen \<lfloor>a\<rfloor>)" by simp
  then have "(of_int (\<lfloor>a\<rfloor> + 1) :: real) \<le> of_int (2 ^ nat (bitlen \<lfloor>a\<rfloor>))"
    by (simp only: of_int_le_iff)
  then have le: "real_of_int \<lfloor>a\<rfloor> + 1 \<le> 2 ^ nat (bitlen \<lfloor>a\<rfloor>)" by simp
  have "a < real_of_int \<lfloor>a\<rfloor> + 1" by linarith
  with le have "a < 2 ^ nat (bitlen \<lfloor>a\<rfloor>)" by linarith
  moreover have "0 \<le> bitlen \<lfloor>a\<rfloor>" by (rule bitlen_nonneg)
  then have "(2::real) powi (bitlen \<lfloor>a\<rfloor>) = 2 ^ nat (bitlen \<lfloor>a\<rfloor>)"
    by (simp add: power_int_def)
  ultimately show ?thesis using True by (simp add: binade_def)
next
  case False
  let ?n = "\<lceil>1 / a\<rceil> - 1"
  from assms False have "1 < 1 / a" by simp
  then have "1 < \<lceil>1 / a\<rceil>" by (simp add: less_ceiling_iff)
  then have n: "0 < ?n" by simp
  from bitlen_bounds [OF n] have "2 ^ nat (bitlen ?n - 1) \<le> ?n" by simp
  then have "(of_int (2 ^ nat (bitlen ?n - 1)) :: real) \<le> of_int ?n"
    by (simp only: of_int_le_iff)
  then have le: "2 ^ nat (bitlen ?n - 1) \<le> real_of_int \<lceil>1 / a\<rceil> - 1" by simp
  have "real_of_int \<lceil>1 / a\<rceil> - 1 < 1 / a" by linarith
  with le have lt: "2 ^ nat (bitlen ?n - 1) < 1 / a" by linarith
  have "0 < (2::real) ^ nat (bitlen ?n - 1)" by simp
  with lt assms have "a < 1 / 2 ^ nat (bitlen ?n - 1)"
    by (simp add: field_simps)
  moreover from n have "1 \<le> bitlen ?n" by (auto simp: bitlen_alt_def)
  then have "(2::real) powi (- bitlen ?n + 1) = 1 / 2 ^ nat (bitlen ?n - 1)"
    by (simp add: power_int_def nat_diff_distrib field_simps)
  ultimately show ?thesis using False by (simp add: binade_def)
qed

lemma round64_nonpos: "x \<le> 0 \<Longrightarrow> round64 x \<le> 0"
proof -
  assume x: "x \<le> 0"
  show ?thesis
  proof (cases "x = 0")
    case True
    then show ?thesis by (simp add: round64_def)
  next
    case False
    with x have neg: "x < 0" by simp
    let ?e = "max (binade \<bar>x\<bar>) (- 1022)"
    let ?u = "(2::real) powi (?e - 52)"
    have u: "0 < ?u" by (simp add: zero_less_power_int)
    have "0 \<le> \<bar>x\<bar> / ?u" using u by simp
    then have "0 \<le> round_half_even (\<bar>x\<bar> / ?u)" by (rule round_half_even_nonneg)
    then have "0 \<le> of_int (round_half_even (\<bar>x\<bar> / ?u)) * ?u" using u by simp
    with neg show ?thesis by (simp add: round64_def Let_def mult.assoc)
  qed
qed

lemma round64_not_between:
  "\<not> (1 / 20 \<le> round64 x \<and> round64 x < 7205759403792794 / 2 ^ 57)"
proof (cases "0 < x")
  case False
  then have "round64 x \<le> 0" by (intro round64_nonpos) simp
  then show ?thesis by simp
next
  case True
  define e where "e = max (binade \<bar>x\<bar>) (- 1022)"
  define u where "u = (2::real) powi (e - 52)"
  define k where "k = round_half_even (\<bar>x\<bar> / u)"
  have u: "0 < u" by (simp add: u_def zero_less_power_int)
  from True have r: "round64 x = of_int k * u"
    by (simp add: round64_def Let_def e_def u_def k_def)
  have ue: "u = 2 powi e / 2 ^ 52"
    unfolding u_def using power_int_diff [of "2::real" e 52] by simp
  have e1: "(2::real) powi (e + 1) = 2 powi e * 2"
    by (simp add: power_int_add_1)
  show ?thesis
  proof (cases "- 5 \<le> e")
    case True
    have "(2::real) powi e = 2 powi (e + 5) / 2 powi 5"
      using power_int_diff [of "2::real" "e + 5" 5] by simp
    also from True have "(2::real) powi (e + 5) = 2 ^ nat (e + 5)"
      by (simp add: power_int_def)
    finally have "u = 2 ^ nat (e + 5) / 2 ^ 57"
      using ue by simp
    then have "round64 x = of_int (k * 2 ^ nat (e + 5)) / 2 ^ 57"
      unfolding r by simp
    then obtain N :: int where N: "round64 x = of_int N / 2 ^ 57" ..
    show ?thesis
    proof
      assume a: "1 / 20 \<le> round64 x \<and> round64 x < 7205759403792794 / 2 ^ 57"
      then have "of_int N < (7205759403792794 :: real)" by (simp add: N field_simps)
      then have "N < 7205759403792794" by linarith
      then have "N \<le> 7205759403792793" by simp
      then have "(of_int N :: real) \<le> 7205759403792793" by linarith
      moreover from a have "(2 ^ 57 :: real) / 20 \<le> of_int N" by (simp add: N field_simps)
      ultimately show False by simp
    qed
  next
    case False
    then have e: "e \<le> - 6" by simp
    then have "binade \<bar>x\<bar> + 1 \<le> e + 1" by (simp add: e_def)
    then have "(2::real) powi (binade \<bar>x\<bar> + 1) \<le> 2 powi (e + 1)"
      by (intro power_int_increasing) simp_all
    moreover from True have "\<bar>x\<bar> < 2 powi (binade \<bar>x\<bar> + 1)" by (intro binade_upper) simp
    ultimately have "\<bar>x\<bar> < 2 powi (e + 1)" by simp
    moreover have up: "(2::real) powi (e + 1) = u * 2 ^ 53"
      unfolding ue e1 by simp
    ultimately have "\<bar>x\<bar> / u < 2 ^ 53" using u by (simp add: field_simps)
    then have "\<bar>x\<bar> / u < of_int (2 ^ 53)" by simp
    then have "k \<le> 2 ^ 53" unfolding k_def by (rule round_half_even_le)
    then have "(of_int k :: real) \<le> of_int (2 ^ 53)" by (simp only: of_int_le_iff)
    then have "(of_int k :: real) \<le> 2 ^ 53" by simp
    with u have "of_int k * u \<le> 2 ^ 53 * u" by simp
    also have "2 ^ 53 * u = 2 powi (e + 1)"
      using up by simp
    also from e have "(2::real) powi (e + 1) \<le> 2 powi (- 5)"
      by (intro power_int_increasing) simp_all
    finally have "round64 x \<le> 1 / 32" unfolding r by (simp add: power_int_minus)
    then show ?thesis by simp
  qed
qed

lemma round64_literal: "round64 0.05 = 7205759403792794 / 2 ^ 57"
  by (simp add: round64_def binade_def round_half_even_def bitlen_def compute_floorlog Let_def)

lemma below_minimum_prompt_duration: "round64 x < round64 0.05 \<longleftrightarrow> round64 x < 0.05"
proof
  assume "round64 x < 0.05"
  moreover have "(0.05 :: real) < 7205759403792794 / 2 ^ 57" by simp
  ultimately show "round64 x < round64 0.05" unfolding round64_literal by simp
next
  assume "round64 x < round64 0.05"
  with round64_not_between [of x] show "round64 x < 0.05"
    unfolding round64_literal by simp
qed

lemma duration_below_minimum:
  "duration_seconds a < round64 0.05 \<longleftrightarrow> duration_seconds a < 0.05"
proof (cases "frame_rate a = 0")
  case True
  have "round64 0 < round64 0.05 \<longleftrightarrow> round64 0 < 0.05"
    by (rule below_minimum_prompt_duration)
  with True show ?thesis by (simp add: duration_seconds_def round64_def)
next
  case False
  then show ?thesis
    unfolding duration_seconds_def fdiv_def
    by (simp only: if_False below_minimum_prompt_duration)
qed

text \<open>
  Claim C7, as the code has it. A captured utterance shorter than the fixed
  \<^verbatim>\<open>minimum_prompt_duration_seconds\<close> of 0.05 s is dropped: it is not sent to speech-to-text
  and nothing is put on the questions queue. An utterance of 0.05 s or more is sent to
  speech-to-text, whatever \<^verbatim>\<open>min_speech_duration_seconds\<close> is.
\<close>

theorem short_utterance_discarded:
  "(duration_seconds a < 0.05 \<longrightarrow>
      handle_question_item self stt lower_alphanumeric (Some a) = [])
   \<and> (\<not> duration_seconds a < 0.05 \<longrightarrow>
      hd (handle_question_item self stt lower_alphanumeric (Some a)) = SttCall a)"
  unfolding handle_question_item_def Let_def duration_below_minimum
  by (simp split: sum.splits)

theorem short_utterance_discarded_witness:
  "duration_seconds \<lparr>frame_count = 500, frame_rate = 16000\<rparr> < 0.05
   \<and> handle_question_item \<lparr>min_speech_duration_seconds = 1, exit_expressions = [''goodbye'']\<rparr>
        (\<lambda>a. Inr ''hello'') (\<lambda>s. s) (Some \<lparr>frame_count = 500, frame_rate = 16000\<rparr>) = []"
proof -
  have h: "duration_seconds \<lparr>frame_count = 500, frame_rate = 16000\<rparr> < 0.05"
    by (simp add: example_durations)
  from short_utterance_discarded [of "\<lparr>frame_count = 500, frame_rate = 16000\<rparr>"] h
  have "handle_question_item \<lparr>min_speech_duration_seconds = 1, exit_expressions = [''goodbye'']\<rparr>
        (\<lambda>a. Inr ''hello'') (\<lambda>s. s) (Some \<lparr>frame_count = 500, frame_rate = 16000\<rparr>) = []"
    by blast
  with h show ?thesis by blast
qed

text \<open>
  The claim as the specification states it (the threshold is
  \<^verbatim>\<open>min_speech_duration_seconds\<close>) fails: with a minimum of 1 s, an utterance of 0.5 s is
  sent to speech-to-text and its text is put on the questions queue.
\<close>

theorem short_utterance_counterexample:
  "duration_seconds \<lparr>frame_count = 8000, frame_rate = 16000\<rparr>
     < min_speech_duration_seconds \<lparr>min_speech_duration_seconds = 1, exit_expressions = [''goodbye'']\<rparr>
   \<and> handle_question_item \<lparr>min_speech_duration_seconds = 1, exit_expressions = [''goodbye'']\<rparr>
        (\<lambda>a. Inr ''hello'') (\<lambda>s. s) (Some \<lparr>frame_count = 8000, frame_rate = 16000\<rparr>)
      = [SttCall \<lparr>frame_count = 8000, frame_rate = 16000\<rparr>, QuestionsPut (Some ''hello'')]"
  unfolding handle_question_item_def Let_def duration_below_minimum
  by (simp add: example_durations startswith_def)

end
